theory Spec2Isabelle
  imports Complex_Main "HOL-Library.AList"
begin

section \<open>Python values and library objects\<close>

text \<open>
  The program of \<^verbatim>\<open>github-copilot-interaction.py\<close> is one class,
  \<^verbatim>\<open>GitHubCopilotInteraction\<close>, whose methods talk to three outside parties: the
  HTTP library \<^verbatim>\<open>requests\<close>, the local file system (through \<^verbatim>\<open>pathlib\<close> and
  \<^verbatim>\<open>open\<close>) and standard output. The methods are embedded as functions that pass a
  world state along; every library call is a field of an environment record, so that
  nothing is assumed about what the network or the operating system answers.

  A value decoded from JSON by \<^verbatim>\<open>response.json()\<close> is a \<open>jvalue\<close>. A float is kept
  as the rational number it denotes (the program never computes with one). A Python
  \<^verbatim>\<open>dict\<close> is an association list read with \<^const>\<open>map_of\<close>.
\<close>

datatype jvalue =
    JNull
  | JBool bool
  | JInt int
  | JFloat rat
  | JStr string
  | JList "jvalue list"
  | JDict "(string \<times> jvalue) list"

type_synonym bytes = string

text \<open>A \<^verbatim>\<open>pathlib.Path\<close> is kept as the string \<^verbatim>\<open>str(path)\<close> renders.\<close>

type_synonym path = string

type_synonym headers = "(string \<times> string) list"

text \<open>
  The exceptions (subclasses of \<^verbatim>\<open>Exception\<close>) the program can meet: \<open>KeyError\<close> and
  \<open>TypeError\<close> come from the interpreter, \<open>Raised\<close> is any exception a library call
  raises, named by a description.
\<close>

datatype exn = KeyError string | TypeError | Raised string

text \<open>
  A \<^verbatim>\<open>requests.Response\<close>: the fields the program reads. \<open>json\<close> is what
  \<^verbatim>\<open>response.json()\<close> does, a decoded value or an exception.
\<close>

record response =
  status_code :: int
  resp_text :: string
  content :: bytes
  json :: "exn + jvalue"

text \<open>The object built by \<^verbatim>\<open>__init__\<close>.\<close>

record GitHubCopilotInteraction =
  username :: string
  pat_token :: string
  headers :: headers
  base_url :: string

text \<open>
  The library calls. \<open>requests_get\<close> takes the URL as the Python value it is given
  (the download URL is read from a JSON entry and may be any value). \<open>joinpath\<close> is
  \<^verbatim>\<open>path / name\<close> for a string \<open>name\<close>. The file system has an abstract state
  \<open>'fs\<close>; \<open>os_mkdir p parents exist_ok\<close> is \<^verbatim>\<open>p.mkdir(parents=..., exist_ok=...)\<close>,
  \<open>os_write_bytes\<close> is \<^verbatim>\<open>p.write_bytes(data)\<close> and \<open>os_read_text\<close> is
  \<^verbatim>\<open>open(p, 'r', encoding='utf-8').read()\<close>. \<open>exn_str\<close> is \<^verbatim>\<open>str(e)\<close>.
\<close>

record 'fs env =
  requests_get :: "jvalue \<Rightarrow> headers \<Rightarrow> exn + response"
  requests_post :: "string \<Rightarrow> headers \<Rightarrow> jvalue \<Rightarrow> exn + response"
  b64decode :: "jvalue \<Rightarrow> exn + bytes"
  Path :: "string \<Rightarrow> path"
  joinpath :: "path \<Rightarrow> string \<Rightarrow> path"
  os_mkdir :: "path \<Rightarrow> bool \<Rightarrow> bool \<Rightarrow> 'fs \<Rightarrow> exn + 'fs"
  os_write_bytes :: "path \<Rightarrow> bytes \<Rightarrow> 'fs \<Rightarrow> exn + 'fs"
  os_read_text :: "string \<Rightarrow> 'fs \<Rightarrow> exn + string"
  exn_str :: "exn \<Rightarrow> string"

text \<open>The lines the program prints, by their format string.\<close>

datatype message =
    Fetching_repository string string
  | Error_fetching_directory_contents int
  | Response_text string
  | Downloaded path
  | Error_downloading_file int
  | Error_reading_context_file string string
  | Error_from_Copilot_API int
  | Exception_when_calling_Copilot_API string

text \<open>
  The effects of a run, in the order they happen. A file system call is recorded with
  the exception it raised, if any.
\<close>

datatype event =
    Get jvalue headers
  | Post string headers jvalue
  | Mkdir path bool bool "exn option"
  | WriteBytes path bytes "exn option"
  | ReadText string "exn option"
  | Print message

text \<open>
  The world: the client object \<open>self\<close> (a mutable Python object, so part of the
  state), the local file system and the effects so far.
\<close>

record 'fs world =
  self :: GitHubCopilotInteraction
  filesystem :: 'fs
  trace :: "event list"

text \<open>
  The dictionaries \<^verbatim>\<open>_download_directory_contents\<close> returns:
  \<^verbatim>\<open>{'error': text}\<close> or \<^verbatim>\<open>{'files': [...], 'directories': [...]}\<close>.
\<close>

datatype file_entry = FileEntry (fe_name: string) (fe_path: path) (fe_size: jvalue)

datatype dl_result =
    ErrorResult string
  | DirResult "file_entry list" "dir_entry list"
and dir_entry =
    DirEntry (de_name: string) (de_path: path) (de_contents: dl_result)

section \<open>The interpreter's operations\<close>

text \<open>Truth value of a Python value, as \<^verbatim>\<open>if x\<close> and \<^verbatim>\<open>x and y\<close> test it.\<close>

fun truthy :: "jvalue \<Rightarrow> bool" where
  "truthy JNull = False"
| "truthy (JBool b) = b"
| "truthy (JInt n) = (n \<noteq> 0)"
| "truthy (JFloat r) = (r \<noteq> 0)"
| "truthy (JStr s) = (s \<noteq> [])"
| "truthy (JList xs) = (xs \<noteq> [])"
| "truthy (JDict kvs) = (kvs \<noteq> [])"

text \<open>
  \<^verbatim>\<open>for item in contents\<close>: a list gives its elements, a dict its keys, a string its
  characters; anything else is not iterable.
\<close>

fun py_iter :: "jvalue \<Rightarrow> exn + jvalue list" where
  "py_iter (JList xs) = Inr xs"
| "py_iter (JDict kvs) = Inr (map (\<lambda>kv. JStr (fst kv)) kvs)"
| "py_iter (JStr s) = Inr (map (\<lambda>c. JStr [c]) s)"
| "py_iter _ = Inl TypeError"

definition emit :: "event \<Rightarrow> 'fs world \<Rightarrow> 'fs world" where
  "emit e w = w\<lparr>trace := trace w @ [e]\<rparr>"

text \<open>\<^verbatim>\<open>requests.get(url, headers=self.headers)\<close>\<close>

definition http_get :: "'fs env \<Rightarrow> jvalue \<Rightarrow> 'fs world \<Rightarrow> 'fs world \<times> (exn + response)" where
  "http_get env url w =
     (emit (Get url (headers (self w))) w, requests_get env url (headers (self w)))"

definition mkdir :: "'fs env \<Rightarrow> path \<Rightarrow> bool \<Rightarrow> bool \<Rightarrow> 'fs world \<Rightarrow> 'fs world \<times> (exn + unit)" where
  "mkdir env p parents exist_ok w =
     (case os_mkdir env p parents exist_ok (filesystem w) of
        Inl e \<Rightarrow> (emit (Mkdir p parents exist_ok (Some e)) w, Inl e)
      | Inr fs' \<Rightarrow> (emit (Mkdir p parents exist_ok None) (w\<lparr>filesystem := fs'\<rparr>), Inr ()))"

definition write_bytes :: "'fs env \<Rightarrow> path \<Rightarrow> bytes \<Rightarrow> 'fs world \<Rightarrow> 'fs world \<times> (exn + unit)" where
  "write_bytes env p data w =
     (case os_write_bytes env p data (filesystem w) of
        Inl e \<Rightarrow> (emit (WriteBytes p data (Some e)) w, Inl e)
      | Inr fs' \<Rightarrow> (emit (WriteBytes p data None) (w\<lparr>filesystem := fs'\<rparr>), Inr ()))"

definition read_text :: "'fs env \<Rightarrow> string \<Rightarrow> 'fs world \<Rightarrow> 'fs world \<times> (exn + string)" where
  "read_text env p w =
     (case os_read_text env p (filesystem w) of
        Inl e \<Rightarrow> (emit (ReadText p (Some e)) w, Inl e)
      | Inr s \<Rightarrow> (emit (ReadText p None) w, Inr s))"

section \<open>The class GitHubCopilotInteraction\<close>

text \<open>\<^verbatim>\<open>__init__(self, username, pat_token)\<close>\<close>

definition init :: "string \<Rightarrow> string \<Rightarrow> GitHubCopilotInteraction" where
  "init user token =
     \<lparr>username = user,
      pat_token = token,
      headers =
        [(''Authorization'', ''token '' @ token),
         (''Accept'', ''application/vnd.github.v3+json''),
         (''User-Agent'', ''GitHub-Copilot-Client-'' @ user)],
      base_url = ''https://api.github.com''\<rparr>"

text \<open>
  \<^verbatim>\<open>'content' in file_info and file_info['content']\<close>: the inline content, when the
  key is there and its value is true.
\<close>

definition inline_content :: "(string \<times> jvalue) list \<Rightarrow> jvalue option" where
  "inline_content file_info =
     (case map_of file_info ''content'' of
        None \<Rightarrow> None
      | Some c \<Rightarrow> if truthy c then Some c else None)"

text \<open>\<^verbatim>\<open>_get_file_content(self, file_info)\<close>, for a dict \<open>file_info\<close>.\<close>

definition get_file_content ::
  "'fs env \<Rightarrow> (string \<times> jvalue) list \<Rightarrow> 'fs world \<Rightarrow> 'fs world \<times> (exn + bytes)" where
  "get_file_content env file_info w =
     (case inline_content file_info of
        Some c \<Rightarrow> (w, b64decode env c)
      | None \<Rightarrow>
          (case map_of file_info ''download_url'' of
             None \<Rightarrow> (w, Inl (KeyError ''download_url''))
           | Some url \<Rightarrow>
               (case http_get env url w of
                  (w1, Inl e) \<Rightarrow> (w1, Inl e)
                | (w1, Inr response) \<Rightarrow>
                    if status_code response = 200 then (w1, Inr (content response))
                    else (emit (Print (Error_downloading_file (status_code response))) w1,
                          Inr []))))"

text \<open>The URL of a listing request.\<close>

definition contents_url :: "GitHubCopilotInteraction \<Rightarrow> string \<Rightarrow> string \<Rightarrow> string \<Rightarrow> string" where
  "contents_url c owner repo p = base_url c @ ''/repos/'' @ owner @ ''/'' @ repo @ ''/contents/'' @ p"

text \<open>
  \<^verbatim>\<open>_download_directory_contents(self, owner, repo, path, target_path)\<close> and its loop
  \<^verbatim>\<open>for item in contents\<close>, with the lists \<^verbatim>\<open>result['files']\<close> and
  \<^verbatim>\<open>result['directories']\<close> as accumulators. Python bounds the recursion by its stack
  only; here the first argument is fuel, the number of nested calls left, and \<open>None\<close>
  is a run that needs more.
\<close>

function download_directory_contents ::
  "nat \<Rightarrow> 'fs env \<Rightarrow> string \<Rightarrow> string \<Rightarrow> string \<Rightarrow> path \<Rightarrow> 'fs world
     \<Rightarrow> ('fs world \<times> (exn + dl_result)) option"
and download_items ::
  "nat \<Rightarrow> 'fs env \<Rightarrow> string \<Rightarrow> string \<Rightarrow> string \<Rightarrow> path \<Rightarrow> jvalue list
     \<Rightarrow> file_entry list \<Rightarrow> dir_entry list \<Rightarrow> 'fs world
     \<Rightarrow> ('fs world \<times> (exn + dl_result)) option"
where
  "download_directory_contents 0 env owner repo p target_path w = None"
| "download_directory_contents (Suc n) env owner repo p target_path w =
     (case http_get env (JStr (contents_url (self w) owner repo p)) w of
        (w1, Inl e) \<Rightarrow> Some (w1, Inl e)
      | (w1, Inr response) \<Rightarrow>
          if status_code response \<noteq> 200 then
            Some (emit (Print (Response_text (resp_text response)))
                    (emit (Print (Error_fetching_directory_contents (status_code response))) w1),
                  Inr (ErrorResult (resp_text response)))
          else
            (case json response of
               Inl e \<Rightarrow> Some (w1, Inl e)
             | Inr contents \<Rightarrow>
                 (case py_iter contents of
                    Inl e \<Rightarrow> Some (w1, Inl e)
                  | Inr items \<Rightarrow>
                      download_items n env owner repo p target_path items [] [] w1)))"
| "download_items n env owner repo p target_path [] files dirs w =
     Some (w, Inr (DirResult files dirs))"
| "download_items n env owner repo p target_path (item # rest) files dirs w =
     (case item of
        JDict kvs \<Rightarrow>
          (case map_of kvs ''name'' of
             None \<Rightarrow> Some (w, Inl (KeyError ''name''))
           | Some (JStr name) \<Rightarrow>
               (let item_path = joinpath env target_path name in
                case map_of kvs ''type'' of
                  None \<Rightarrow> Some (w, Inl (KeyError ''type''))
                | Some ty \<Rightarrow>
                    if ty = JStr ''file'' then
                      (case get_file_content env kvs w of
                         (w1, Inl e) \<Rightarrow> Some (w1, Inl e)
                       | (w1, Inr file_content) \<Rightarrow>
                           (case write_bytes env item_path file_content w1 of
                              (w2, Inl e) \<Rightarrow> Some (w2, Inl e)
                            | (w2, Inr u) \<Rightarrow>
                                (case map_of kvs ''size'' of
                                   None \<Rightarrow> Some (w2, Inl (KeyError ''size''))
                                 | Some sz \<Rightarrow>
                                     download_items n env owner repo p target_path rest
                                       (files @ [FileEntry name item_path sz]) dirs
                                       (emit (Print (Downloaded item_path)) w2))))
                    else if ty = JStr ''dir'' then
                      (case mkdir env item_path False True w of
                         (w1, Inl e) \<Rightarrow> Some (w1, Inl e)
                       | (w1, Inr u) \<Rightarrow>
                           (case download_directory_contents n env owner repo
                                   (if p \<noteq> [] then p @ ''/'' @ name else name) item_path w1 of
                              None \<Rightarrow> None
                            | Some (w2, Inl e) \<Rightarrow> Some (w2, Inl e)
                            | Some (w2, Inr sub_result) \<Rightarrow>
                                download_items n env owner repo p target_path rest files
                                  (dirs @ [DirEntry name item_path sub_result]) w2))
                    else download_items n env owner repo p target_path rest files dirs w)
           | Some other \<Rightarrow> Some (w, Inl TypeError))
      | other \<Rightarrow> Some (w, Inl TypeError))"
  by pat_completeness auto
termination
  by (relation "measures
        [\<lambda>x. case x of
           Inl (n, env, owner, repo, p, target_path, w) \<Rightarrow> 2 * n
         | Inr (n, env, owner, repo, p, target_path, items, files, dirs, w) \<Rightarrow> 2 * n + 1,
         \<lambda>x. case x of
           Inl t \<Rightarrow> 0
         | Inr (n, env, owner, repo, p, target_path, items, files, dirs, w) \<Rightarrow> length items]")
    auto

text \<open>\<^verbatim>\<open>fetch_repository(self, repo_owner, repo_name, target_path=None)\<close>\<close>

definition fetch_repository ::
  "nat \<Rightarrow> 'fs env \<Rightarrow> string \<Rightarrow> string \<Rightarrow> string option \<Rightarrow> 'fs world
     \<Rightarrow> ('fs world \<times> (exn + dl_result)) option" where
  "fetch_repository fuel env repo_owner repo_name target_path w =
     (let target = (case target_path of None \<Rightarrow> Path env repo_name | Some t \<Rightarrow> Path env t) in
      case mkdir env target True True w of
        (w1, Inl e) \<Rightarrow> Some (w1, Inl e)
      | (w1, Inr u) \<Rightarrow>
          download_directory_contents fuel env repo_owner repo_name [] target
            (emit (Print (Fetching_repository repo_owner repo_name)) w1))"

text \<open>
  The loop \<^verbatim>\<open>for file_path in context_files\<close> of \<^verbatim>\<open>send_copilot_query\<close>, with the
  string \<^verbatim>\<open>context\<close> as accumulator; an exception while reading is caught and printed.
\<close>

fun read_context_files :: "'fs env \<Rightarrow> string list \<Rightarrow> string \<Rightarrow> 'fs world \<Rightarrow> 'fs world \<times> string" where
  "read_context_files env [] ctxt w = (w, ctxt)"
| "read_context_files env (file_path # rest) ctxt w =
     (case read_text env file_path w of
        (w1, Inl e) \<Rightarrow>
          read_context_files env rest ctxt
            (emit (Print (Error_reading_context_file file_path (exn_str env e))) w1)
      | (w1, Inr file_content) \<Rightarrow>
          read_context_files env rest
            (ctxt @ [CHR 0x0A] @ ''# File: '' @ file_path @ [CHR 0x0A] @ file_content @ [CHR 0x0A])
            w1)"

text \<open>
  \<^verbatim>\<open>send_copilot_query(self, query, context_files=None)\<close>. The float \<^verbatim>\<open>0.7\<close> is the
  double nearest to it. Everything after the request body is inside
  \<^verbatim>\<open>try ... except Exception\<close>, so the method always returns a dict.
\<close>

definition send_copilot_query ::
  "'fs env \<Rightarrow> string \<Rightarrow> string list option \<Rightarrow> 'fs world \<Rightarrow> 'fs world \<times> jvalue" where
  "send_copilot_query env query context_files w =
     (let copilot_url = ''https://api.githubcopilot.com/v1/completions'';
          (w1, ctxt) =
            (case context_files of
               None \<Rightarrow> (w, [])
             | Some fps \<Rightarrow> if fps = [] then (w, []) else read_context_files env fps [] w);
          request_body =
            JDict [(''prompt'', JStr (ctxt @ [CHR 0x0A] @ query)),
                   (''max_tokens'', JInt 500),
                   (''temperature'', JFloat (3152519739159347 / 4503599627370496))];
          copilot_headers =
            AList.update ''GitHub-Authentication'' (''Bearer '' @ pat_token (self w1))
              (AList.update ''Content-Type'' ''application/json'' (headers (self w1)));
          w2 = emit (Post copilot_url copilot_headers request_body) w1
      in case requests_post env copilot_url copilot_headers request_body of
           Inl e \<Rightarrow>
             (emit (Print (Exception_when_calling_Copilot_API (exn_str env e))) w2,
              JDict [(''error'', JStr (exn_str env e))])
         | Inr response \<Rightarrow>
             if status_code response = 200 then
               (case json response of
                  Inl e \<Rightarrow>
                    (emit (Print (Exception_when_calling_Copilot_API (exn_str env e))) w2,
                     JDict [(''error'', JStr (exn_str env e))])
                | Inr v \<Rightarrow> (w2, v))
             else
               (emit (Print (Response_text (resp_text response)))
                  (emit (Print (Error_from_Copilot_API (status_code response))) w2),
                JDict [(''error'', JStr (resp_text response))]))"

text \<open>
  A caller's sequence of method calls on one client. A caller may catch an exception
  and go on, so the sequence continues whatever a call returns or raises; it is \<open>None\<close>
  when a call runs out of fuel.
\<close>

datatype call =
    Call_fetch_repository string string "string option"
  | Call_download_directory_contents string string string path
  | Call_get_file_content "(string \<times> jvalue) list"
  | Call_send_copilot_query string "string list option"

fun run_call :: "nat \<Rightarrow> 'fs env \<Rightarrow> call \<Rightarrow> 'fs world \<Rightarrow> 'fs world option" where
  "run_call fuel env (Call_fetch_repository repo_owner repo_name target_path) w =
     map_option fst (fetch_repository fuel env repo_owner repo_name target_path w)"
| "run_call fuel env (Call_download_directory_contents owner repo p target_path) w =
     map_option fst (download_directory_contents fuel env owner repo p target_path w)"
| "run_call fuel env (Call_get_file_content file_info) w =
     Some (fst (get_file_content env file_info w))"
| "run_call fuel env (Call_send_copilot_query query context_files) w =
     Some (fst (send_copilot_query env query context_files w))"

fun run_calls :: "nat \<Rightarrow> 'fs env \<Rightarrow> call list \<Rightarrow> 'fs world \<Rightarrow> 'fs world option" where
  "run_calls fuel env [] w = Some w"
| "run_calls fuel env (c # cs) w =
     (case run_call fuel env c w of
        None \<Rightarrow> None
      | Some w1 \<Rightarrow> run_calls fuel env cs w1)"

section \<open>Vocabulary of the specification\<close>

text \<open>
  The decoded remote content of a file entry, in the specification's words: the
  base64 decoding of the inline \<^verbatim>\<open>content\<close> field when it is present and not empty,
  otherwise the body of a GET of \<^verbatim>\<open>download_url\<close> that answers 200. It is \<open>None\<close>
  when the decoding or the request fails.
\<close>

definition fetched_content ::
  "'fs env \<Rightarrow> headers \<Rightarrow> (string \<times> jvalue) list \<Rightarrow> bytes option" where
  "fetched_content env hs entry =
     (case map_of entry ''download_url'' of
        None \<Rightarrow> None
      | Some url \<Rightarrow>
          (case requests_get env url hs of
             Inl e \<Rightarrow> None
           | Inr response \<Rightarrow>
               if status_code response = 200 then Some (content response) else None))"

definition decoded_remote_content ::
  "'fs env \<Rightarrow> headers \<Rightarrow> (string \<times> jvalue) list \<Rightarrow> bytes option" where
  "decoded_remote_content env hs entry =
     (case map_of entry ''content'' of
        None \<Rightarrow> fetched_content env hs entry
      | Some c \<Rightarrow>
          if truthy c then
            (case b64decode env c of Inl e \<Rightarrow> None | Inr data \<Rightarrow> Some data)
          else fetched_content env hs entry)"

text \<open>The name and the type of a listing entry, when it has them.\<close>

definition entry_name :: "jvalue \<Rightarrow> string option" where
  "entry_name item =
     (case item of
        JDict kvs \<Rightarrow> (case map_of kvs ''name'' of Some (JStr name) \<Rightarrow> Some name | _ \<Rightarrow> None)
      | _ \<Rightarrow> None)"

definition has_type :: "string \<Rightarrow> jvalue \<Rightarrow> bool" where
  "has_type t item =
     (case item of JDict kvs \<Rightarrow> map_of kvs ''type'' = Some (JStr t) | _ \<Rightarrow> False)"

text \<open>The entry of \<^verbatim>\<open>result['files']\<close> that belongs to a listing entry.\<close>

definition listed_file :: "'fs env \<Rightarrow> path \<Rightarrow> jvalue \<Rightarrow> file_entry option" where
  "listed_file env target_path item =
     (case item of
        JDict kvs \<Rightarrow>
          (case (map_of kvs ''name'', map_of kvs ''size'') of
             (Some (JStr name), Some sz) \<Rightarrow>
               Some (FileEntry name (joinpath env target_path name) sz)
           | _ \<Rightarrow> None)
      | _ \<Rightarrow> None)"

text \<open>The name and path of the entry of \<^verbatim>\<open>result['directories']\<close> that belongs to a listing entry.\<close>

definition listed_dir :: "'fs env \<Rightarrow> path \<Rightarrow> jvalue \<Rightarrow> (string \<times> path) option" where
  "listed_dir env target_path item =
     (case entry_name item of
        None \<Rightarrow> None
      | Some name \<Rightarrow> Some (name, joinpath env target_path name))"

text \<open>The remote path of the subdirectory \<open>name\<close> of the remote path \<open>p\<close>.\<close>

definition sub_path :: "string \<Rightarrow> string \<Rightarrow> string" where
  "sub_path p name = (if p = [] then name else p @ ''/'' @ name)"

text \<open>
  A finite remote tree: below the remote path \<open>p\<close> the directories nest at most \<open>d\<close>
  deep (\<open>p\<close> itself counts), as far as the listing requests of this client show them.
  A listing that fails has no entries.
\<close>

fun tree_depth_le ::
  "nat \<Rightarrow> 'fs env \<Rightarrow> GitHubCopilotInteraction \<Rightarrow> string \<Rightarrow> string \<Rightarrow> string \<Rightarrow> bool" where
  "tree_depth_le 0 env c owner repo p = False"
| "tree_depth_le (Suc d) env c owner repo p =
     (case requests_get env (JStr (contents_url c owner repo p)) (headers c) of
        Inl e \<Rightarrow> True
      | Inr response \<Rightarrow>
          if status_code response \<noteq> 200 then True
          else
            (case json response of
               Inl e \<Rightarrow> True
             | Inr contents \<Rightarrow>
                 (case py_iter contents of
                    Inl e \<Rightarrow> True
                  | Inr items \<Rightarrow>
                      list_all
                        (\<lambda>item. case entry_name item of
                           None \<Rightarrow> True
                         | Some name \<Rightarrow> tree_depth_le d env c owner repo (sub_path p name))
                        (filter (has_type ''dir'') items))))"

section \<open>The loop body on its own\<close>

text \<open>
  What one round of \<^verbatim>\<open>for item in contents\<close> does before it recurses or goes on
  to the next entry: it raises, it has written a file and has the entry for
  \<^verbatim>\<open>result['files']\<close>, it has made a local directory and is about to recurse, or it
  skips an entry that is neither a file nor a directory. \<open>item_step\<close> is the body of
  \<open>download_items\<close> with the recursive calls cut off (lemma \<open>download_items_Cons\<close>).
\<close>

datatype 'fs step =
    Raises "'fs world" exn
  | File_done "'fs world" file_entry
  | Enter_dir "'fs world" string path
  | Skipped

definition item_step :: "'fs env \<Rightarrow> path \<Rightarrow> jvalue \<Rightarrow> 'fs world \<Rightarrow> 'fs step" where
  "item_step env target_path item w =
     (case item of
        JDict kvs \<Rightarrow>
          (case map_of kvs ''name'' of
             None \<Rightarrow> Raises w (KeyError ''name'')
           | Some (JStr name) \<Rightarrow>
               (let item_path = joinpath env target_path name in
                case map_of kvs ''type'' of
                  None \<Rightarrow> Raises w (KeyError ''type'')
                | Some ty \<Rightarrow>
                    if ty = JStr ''file'' then
                      (case get_file_content env kvs w of
                         (w1, Inl e) \<Rightarrow> Raises w1 e
                       | (w1, Inr file_content) \<Rightarrow>
                           (case write_bytes env item_path file_content w1 of
                              (w2, Inl e) \<Rightarrow> Raises w2 e
                            | (w2, Inr u) \<Rightarrow>
                                (case map_of kvs ''size'' of
                                   None \<Rightarrow> Raises w2 (KeyError ''size'')
                                 | Some sz \<Rightarrow>
                                     File_done (emit (Print (Downloaded item_path)) w2)
                                       (FileEntry name item_path sz))))
                    else if ty = JStr ''dir'' then
                      (case mkdir env item_path False True w of
                         (w1, Inl e) \<Rightarrow> Raises w1 e
                       | (w1, Inr u) \<Rightarrow> Enter_dir w1 name item_path)
                    else Skipped)
           | Some other \<Rightarrow> Raises w TypeError)
      | other \<Rightarrow> Raises w TypeError)"

text \<open>The events that change the local file system.\<close>

fun fs_event :: "event \<Rightarrow> bool" where
  "fs_event (Mkdir p a b x) = True"
| "fs_event (WriteBytes p d x) = True"
| "fs_event ev = False"

text \<open>
  What a run leaves behind: the client object is the one it started with, the trace
  has grown, and a write that failed is the last thing that happened and is the
  exception of the outcome.
\<close>

definition sound_outcome :: "'fs world \<Rightarrow> 'fs world \<Rightarrow> (exn + 'a) \<Rightarrow> bool" where
  "sound_outcome w w' r =
     (self w' = self w \<and>
      (\<exists>evs. trace w' = trace w @ evs \<and>
         (\<forall>pth data e. WriteBytes pth data (Some e) \<in> set evs \<longrightarrow>
            r = Inl e \<and> last evs = WriteBytes pth data (Some e))))"

definition quiet_step :: "'fs world \<Rightarrow> 'fs world \<Rightarrow> bool" where
  "quiet_step w w' =
     (self w' = self w \<and>
      (\<exists>evs. trace w' = trace w @ evs \<and>
         (\<forall>pth data e. WriteBytes pth data (Some e) \<notin> set evs)))"

text \<open>
  The effects one listing entry leaves in the trace when the loop has processed it and
  gone on: for a file entry some requests and prints, then the write at its local path
  and the line \<^verbatim>\<open>Downloaded\<close>; for a directory entry the \<^verbatim>\<open>mkdir\<close> of its local path,
  then the listing request of its remote path and whatever the recursive call did;
  nothing for an entry of another type. \<open>c\<close> is the client.
\<close>

definition entry_segment ::
  "'fs env \<Rightarrow> string \<Rightarrow> string \<Rightarrow> string \<Rightarrow> path \<Rightarrow> GitHubCopilotInteraction
     \<Rightarrow> jvalue \<Rightarrow> event list \<Rightarrow> bool" where
  "entry_segment env owner repo p target_path c item seg =
     (case entry_name item of
        None \<Rightarrow> False
      | Some name \<Rightarrow>
          if has_type ''file'' item then
            (\<exists>pre data.
               seg = pre @ [WriteBytes (joinpath env target_path name) data None,
                            Print (Downloaded (joinpath env target_path name))] \<and>
               (\<forall>ev\<in>set pre. \<not> fs_event ev))
          else if has_type ''dir'' item then
            (\<exists>evs.
               seg = Mkdir (joinpath env target_path name) False True None #
                     Get (JStr (contents_url c owner repo (sub_path p name))) (headers c) # evs)
          else seg = [])"

section \<open>An example repository\<close>

text \<open>
  Concrete inputs for evaluating the functions: an environment whose network is a table
  from URLs to responses and whose file system is a list of the paths made so far
  (\<open>None\<close> for a directory, \<open>Some data\<close> for a file; a path in \<open>readonly\<close> cannot be
  written), and a small remote repository \<^verbatim>\<open>o/r\<close> with an inline file, a
  subdirectory and a file that has to be downloaded.
\<close>

definition example_env ::
  "(string \<times> response) list \<Rightarrow> path list \<Rightarrow> (path \<times> bytes option) list env" where
  "example_env site readonly =
     \<lparr>requests_get = (\<lambda>url hs. case url of
          JStr u \<Rightarrow> (case map_of site u of
                       None \<Rightarrow> Inl (Raised ''ConnectionError'')
                     | Some response \<Rightarrow> Inr response)
        | _ \<Rightarrow> Inl (Raised ''MissingSchema'')),
      requests_post = (\<lambda>url hs body. Inl (Raised ''ConnectionError'')),
      b64decode = (\<lambda>v. if v = JStr ''aGk='' then Inr ''hi'' else Inl (Raised ''binascii.Error'')),
      Path = (\<lambda>s. s),
      joinpath = (\<lambda>p name. p @ ''/'' @ name),
      os_mkdir = (\<lambda>p parents exist_ok fs. Inr ((p, None) # fs)),
      os_write_bytes = (\<lambda>p data fs.
        if p \<in> set readonly then Inl (Raised ''PermissionError'') else Inr ((p, Some data) # fs)),
      os_read_text = (\<lambda>p fs. case map_of fs p of
          Some (Some data) \<Rightarrow> Inr data
        | _ \<Rightarrow> Inl (Raised ''FileNotFoundError'')),
      exn_str = (\<lambda>e. case e of KeyError k \<Rightarrow> k | TypeError \<Rightarrow> ''TypeError'' | Raised d \<Rightarrow> d)\<rparr>"

definition listing :: "jvalue list \<Rightarrow> response" where
  "listing items = \<lparr>status_code = 200, resp_text = [], content = [], json = Inr (JList items)\<rparr>"

definition raw :: "int \<Rightarrow> string \<Rightarrow> response" where
  "raw code body =
     \<lparr>status_code = code, resp_text = body, content = body,
      json = Inl (Raised ''JSONDecodeError'')\<rparr>"

definition readme :: "(string \<times> jvalue) list" where
  "readme = [(''name'', JStr ''README''), (''type'', JStr ''file''), (''size'', JInt 2),
             (''content'', JStr ''aGk='')]"

definition a_bin :: "(string \<times> jvalue) list" where
  "a_bin = [(''name'', JStr ''a.bin''), (''type'', JStr ''file''), (''size'', JInt 3),
            (''download_url'', JStr ''raw/a.bin'')]"

definition src :: "(string \<times> jvalue) list" where
  "src = [(''name'', JStr ''src''), (''type'', JStr ''dir''), (''size'', JInt 0)]"

definition world0 :: "(path \<times> bytes option) list world" where
  "world0 = \<lparr>self = init ''u'' ''t'', filesystem = [], trace = []\<rparr>"

definition site1 :: "(string \<times> response) list" where
  "site1 =
     [(''https://api.github.com/repos/o/r/contents/'', listing [JDict readme, JDict src, JDict a_bin]),
      (''https://api.github.com/repos/o/r/contents/src'', listing [JDict a_bin]),
      (''raw/a.bin'', raw 200 ''abc'')]"

text \<open>Sites where a request fails: the root listing, a download, the listing of a subdirectory.\<close>

definition root_url :: string where
  "root_url = ''https://api.github.com/repos/o/r/contents/''"

definition site_listing_fails :: "int \<Rightarrow> (string \<times> response) list" where
  "site_listing_fails code = [(root_url, raw code ''Not Found'')]"

definition site_download :: "int \<Rightarrow> (string \<times> response) list" where
  "site_download code =
     [(root_url, listing [JDict a_bin, JDict readme]), (''raw/a.bin'', raw code ''abc'')]"



definition nosize :: "(string \<times> jvalue) list" where
  "nosize = [(''name'', JStr ''x''), (''type'', JStr ''file''), (''content'', JStr ''aGk='')]"




definition site_nosize :: "(string \<times> response) list" where
  "site_nosize = [(root_url, listing [JDict nosize])]"

section \<open>The loop, one entry at a time\<close>

lemma download_items_Cons:
  "download_items n env owner repo p target_path (item # rest) files dirs w =
     (case item_step env target_path item w of
        Raises w1 e \<Rightarrow> Some (w1, Inl e)
      | File_done w2 fe \<Rightarrow>
          download_items n env owner repo p target_path rest (files @ [fe]) dirs w2
      | Enter_dir w1 name item_path \<Rightarrow>
          (case download_directory_contents n env owner repo
                  (if p \<noteq> [] then p @ ''/'' @ name else name) item_path w1 of
             None \<Rightarrow> None
           | Some (w2, Inl e) \<Rightarrow> Some (w2, Inl e)
           | Some (w2, Inr sub_result) \<Rightarrow>
               download_items n env owner repo p target_path rest files
                 (dirs @ [DirEntry name item_path sub_result]) w2)
      | Skipped \<Rightarrow> download_items n env owner repo p target_path rest files dirs w)"
  by (simp add: item_step_def Let_def
        split: jvalue.split option.split prod.split sum.split)

declare download_items.simps(2) [simp del]

lemma self_emit [simp]: "self (emit e w) = self w"
  and filesystem_emit [simp]: "filesystem (emit e w) = filesystem w"
  and trace_emit [simp]: "trace (emit e w) = trace w @ [e]"
  by (simp_all add: emit_def)

text \<open>The loop body, entry by entry kind.\<close>

lemma item_step_not_dict:
  "\<forall>kvs. item \<noteq> JDict kvs \<Longrightarrow> item_step env tp item w = Raises w TypeError"
  by (cases item) (simp_all add: item_step_def)

lemma item_step_no_name:
  "map_of kvs ''name'' = None \<Longrightarrow> item_step env tp (JDict kvs) w = Raises w (KeyError ''name'')"
  by (simp add: item_step_def)

lemma item_step_bad_name:
  "map_of kvs ''name'' = Some v \<Longrightarrow> \<forall>name. v \<noteq> JStr name \<Longrightarrow>
   item_step env tp (JDict kvs) w = Raises w TypeError"
  by (cases v) (simp_all add: item_step_def)

lemma item_step_no_type:
  "map_of kvs ''name'' = Some (JStr name) \<Longrightarrow> map_of kvs ''type'' = None \<Longrightarrow>
   item_step env tp (JDict kvs) w = Raises w (KeyError ''type'')"
  by (simp add: item_step_def)

lemma item_step_file:
  "map_of kvs ''name'' = Some (JStr name) \<Longrightarrow> map_of kvs ''type'' = Some (JStr ''file'') \<Longrightarrow>
   item_step env tp (JDict kvs) w =
     (case get_file_content env kvs w of
        (w1, Inl e) \<Rightarrow> Raises w1 e
      | (w1, Inr file_content) \<Rightarrow>
          (case write_bytes env (joinpath env tp name) file_content w1 of
             (w2, Inl e) \<Rightarrow> Raises w2 e
           | (w2, Inr u) \<Rightarrow>
               (case map_of kvs ''size'' of
                  None \<Rightarrow> Raises w2 (KeyError ''size'')
                | Some sz \<Rightarrow>
                    File_done (emit (Print (Downloaded (joinpath env tp name))) w2)
                      (FileEntry name (joinpath env tp name) sz))))"
  by (simp add: item_step_def Let_def)

lemma item_step_dir:
  "map_of kvs ''name'' = Some (JStr name) \<Longrightarrow> map_of kvs ''type'' = Some (JStr ''dir'') \<Longrightarrow>
   item_step env tp (JDict kvs) w =
     (case mkdir env (joinpath env tp name) False True w of
        (w1, Inl e) \<Rightarrow> Raises w1 e
      | (w1, Inr u) \<Rightarrow> Enter_dir w1 name (joinpath env tp name))"
  by (simp add: item_step_def Let_def)

lemma item_step_other:
  "map_of kvs ''name'' = Some (JStr name) \<Longrightarrow> map_of kvs ''type'' = Some ty \<Longrightarrow>
   ty \<noteq> JStr ''file'' \<Longrightarrow> ty \<noteq> JStr ''dir'' \<Longrightarrow>
   item_step env tp (JDict kvs) w = Skipped"
  by (simp add: item_step_def)


lemma write_bytes_ok:
  "os_write_bytes env p d (filesystem w) = Inr fs' \<Longrightarrow>
   write_bytes env p d w = (emit (WriteBytes p d None) (w\<lparr>filesystem := fs'\<rparr>), Inr ())"
  by (simp add: write_bytes_def)

lemma write_bytes_fail:
  "os_write_bytes env p d (filesystem w) = Inl e \<Longrightarrow>
   write_bytes env p d w = (emit (WriteBytes p d (Some e)) w, Inl e)"
  by (simp add: write_bytes_def)

lemma mkdir_ok:
  "os_mkdir env p a b (filesystem w) = Inr fs' \<Longrightarrow>
   mkdir env p a b w = (emit (Mkdir p a b None) (w\<lparr>filesystem := fs'\<rparr>), Inr ())"
  by (simp add: mkdir_def)

lemma mkdir_fail:
  "os_mkdir env p a b (filesystem w) = Inl e \<Longrightarrow>
   mkdir env p a b w = (emit (Mkdir p a b (Some e)) w, Inl e)"
  by (simp add: mkdir_def)

lemma item_step_cases
  [case_names raise_early fetch_raise write_raise size_raise file_done mkdir_raise enter_dir skipped]:
  obtains
    (raise_early) e where "item_step env tp item w = Raises w e"
  | (fetch_raise) kvs name w1 e where
      "item = JDict kvs" "map_of kvs ''name'' = Some (JStr name)"
      "map_of kvs ''type'' = Some (JStr ''file'')"
      "get_file_content env kvs w = (w1, Inl e)"
      "item_step env tp item w = Raises w1 e"
  | (write_raise) kvs name w1 data e where
      "item = JDict kvs" "map_of kvs ''name'' = Some (JStr name)"
      "map_of kvs ''type'' = Some (JStr ''file'')"
      "get_file_content env kvs w = (w1, Inr data)"
      "os_write_bytes env (joinpath env tp name) data (filesystem w1) = Inl e"
      "item_step env tp item w =
         Raises (emit (WriteBytes (joinpath env tp name) data (Some e)) w1) e"
  | (size_raise) kvs name w1 data fs' where
      "item = JDict kvs" "map_of kvs ''name'' = Some (JStr name)"
      "map_of kvs ''type'' = Some (JStr ''file'')"
      "get_file_content env kvs w = (w1, Inr data)"
      "os_write_bytes env (joinpath env tp name) data (filesystem w1) = Inr fs'"
      "map_of kvs ''size'' = None"
      "item_step env tp item w =
         Raises (emit (WriteBytes (joinpath env tp name) data None) (w1\<lparr>filesystem := fs'\<rparr>))
           (KeyError ''size'')"
  | (file_done) kvs name w1 data fs' sz where
      "item = JDict kvs" "map_of kvs ''name'' = Some (JStr name)"
      "map_of kvs ''type'' = Some (JStr ''file'')"
      "get_file_content env kvs w = (w1, Inr data)"
      "os_write_bytes env (joinpath env tp name) data (filesystem w1) = Inr fs'"
      "map_of kvs ''size'' = Some sz"
      "item_step env tp item w =
         File_done
           (emit (Print (Downloaded (joinpath env tp name)))
              (emit (WriteBytes (joinpath env tp name) data None) (w1\<lparr>filesystem := fs'\<rparr>)))
           (FileEntry name (joinpath env tp name) sz)"
  | (mkdir_raise) kvs name e where
      "item = JDict kvs" "map_of kvs ''name'' = Some (JStr name)"
      "map_of kvs ''type'' = Some (JStr ''dir'')"
      "os_mkdir env (joinpath env tp name) False True (filesystem w) = Inl e"
      "item_step env tp item w =
         Raises (emit (Mkdir (joinpath env tp name) False True (Some e)) w) e"
  | (enter_dir) kvs name fs' where
      "item = JDict kvs" "map_of kvs ''name'' = Some (JStr name)"
      "map_of kvs ''type'' = Some (JStr ''dir'')"
      "os_mkdir env (joinpath env tp name) False True (filesystem w) = Inr fs'"
      "item_step env tp item w =
         Enter_dir (emit (Mkdir (joinpath env tp name) False True None) (w\<lparr>filesystem := fs'\<rparr>))
           name (joinpath env tp name)"
  | (skipped) kvs name ty where
      "item = JDict kvs" "map_of kvs ''name'' = Some (JStr name)"
      "map_of kvs ''type'' = Some ty" "ty \<noteq> JStr ''file''" "ty \<noteq> JStr ''dir''"
      "item_step env tp item w = Skipped"
proof (cases "\<exists>kvs. item = JDict kvs")
  case False
  then show thesis using raise_early item_step_not_dict by blast
next
  case True
  then obtain kvs where item: "item = JDict kvs" by blast
  show thesis
  proof (cases "map_of kvs ''name''")
    case None
    then show thesis using raise_early item item_step_no_name by blast
  next
    case (Some v)
    show thesis
    proof (cases "\<exists>name. v = JStr name")
      case False
      then show thesis using raise_early item Some item_step_bad_name by blast
    next
      case True
      then obtain name where name: "map_of kvs ''name'' = Some (JStr name)"
        using Some by blast
      let ?ip = "joinpath env tp name"
      show thesis
      proof (cases "map_of kvs ''type''")
        case None
        then show thesis using raise_early item name item_step_no_type by blast
      next
        case ty: (Some ty)
        consider (f) "ty = JStr ''file''" | (d) "ty = JStr ''dir''"
          | (o) "ty \<noteq> JStr ''file''" "ty \<noteq> JStr ''dir''"
          by blast
        then show thesis
        proof cases
          case f
          note st = item_step_file [OF name ty [unfolded f], of env tp w]
          obtain w1 r where g: "get_file_content env kvs w = (w1, r)"
            by (cases "get_file_content env kvs w")
          show thesis
          proof (cases r)
            case (Inl e)
            with st g have "item_step env tp item w = Raises w1 e"
              by (simp add: item)
            then show thesis using fetch_raise item name ty f g Inl by blast
          next
            case (Inr data)
            note g' = g [unfolded Inr]
            show thesis
            proof (cases "os_write_bytes env ?ip data (filesystem w1)")
              case e: (Inl e)
              with st g' have "item_step env tp item w =
                  Raises (emit (WriteBytes ?ip data (Some e)) w1) e"
                by (simp add: item write_bytes_fail)
              then show thesis using write_raise item name ty f g' e by blast
            next
              case ok: (Inr fs')
              show thesis
              proof (cases "map_of kvs ''size''")
                case None
                with st g' ok have "item_step env tp item w =
                    Raises (emit (WriteBytes ?ip data None) (w1\<lparr>filesystem := fs'\<rparr>))
                      (KeyError ''size'')"
                  by (simp add: item write_bytes_ok)
                then show thesis using size_raise item name ty f g' ok None by blast
              next
                case (Some sz)
                with st g' ok have "item_step env tp item w =
                    File_done
                      (emit (Print (Downloaded ?ip))
                         (emit (WriteBytes ?ip data None) (w1\<lparr>filesystem := fs'\<rparr>)))
                      (FileEntry name ?ip sz)"
                  by (simp add: item write_bytes_ok)
                then show thesis using file_done item name ty f g' ok Some by blast
              qed
            qed
          qed
        next
          case d
          note st = item_step_dir [OF name ty [unfolded d], of env tp w]
          show thesis
          proof (cases "os_mkdir env ?ip False True (filesystem w)")
            case (Inl e)
            with st have "item_step env tp item w =
                Raises (emit (Mkdir ?ip False True (Some e)) w) e"
              by (simp add: item mkdir_fail)
            then show thesis using mkdir_raise item name ty d Inl by blast
          next
            case (Inr fs')
            with st have "item_step env tp item w =
                Enter_dir (emit (Mkdir ?ip False True None) (w\<lparr>filesystem := fs'\<rparr>)) name ?ip"
              by (simp add: item mkdir_ok)
            then show thesis using enter_dir item name ty d Inr by blast
          qed
        next
          case o
          then have "item_step env tp item w = Skipped"
            using item_step_other [OF name ty] by (simp add: item)
          then show thesis using skipped item name ty o by blast
        qed
      qed
    qed
  qed
qed

section \<open>What every run preserves\<close>

lemma get_file_content_effect:
  assumes "get_file_content env kvs w = (w1, r)"
  shows "\<exists>evs. w1 = w\<lparr>trace := trace w @ evs\<rparr> \<and> (\<forall>ev\<in>set evs. \<not> fs_event ev)"
proof (cases "inline_content kvs")
  case (Some c)
  with assms have "w1 = w\<lparr>trace := trace w @ []\<rparr>"
    by (simp add: get_file_content_def)
  then show ?thesis by (intro exI[of _ "[]"]) simp
next
  case None
  show ?thesis
  proof (cases "map_of kvs ''download_url''")
    case n: None
    with None assms have "w1 = w\<lparr>trace := trace w @ []\<rparr>"
      by (simp add: get_file_content_def)
    then show ?thesis by (intro exI[of _ "[]"]) simp
  next
    case (Some url)
    let ?g = "Get url (headers (self w))"
    show ?thesis
    proof (cases "requests_get env url (headers (self w))")
      case (Inl e)
      with None Some assms have "w1 = w\<lparr>trace := trace w @ [?g]\<rparr>"
        by (simp add: get_file_content_def http_get_def emit_def)
      then show ?thesis by (intro exI[of _ "[?g]"]) simp
    next
      case (Inr response)
      show ?thesis
      proof (cases "status_code response = 200")
        case True
        with Inr None Some assms have "w1 = w\<lparr>trace := trace w @ [?g]\<rparr>"
          by (simp add: get_file_content_def http_get_def emit_def)
        then show ?thesis by (intro exI[of _ "[?g]"]) simp
      next
        case False
        let ?pr = "Print (Error_downloading_file (status_code response))"
        from False Inr None Some assms have "w1 = w\<lparr>trace := trace w @ [?g, ?pr]\<rparr>"
          by (simp add: get_file_content_def http_get_def emit_def)
        then show ?thesis by (intro exI[of _ "[?g, ?pr]"]) simp
      qed
    qed
  qed
qed

lemma quiet_step_refl: "quiet_step w w"
  by (simp add: quiet_step_def)

lemma quiet_step_emit:
  "quiet_step w w1 \<Longrightarrow> \<forall>pth data e. ev \<noteq> WriteBytes pth data (Some e) \<Longrightarrow> quiet_step w (emit ev w1)"
  by (auto simp: quiet_step_def)

lemma quiet_step_filesystem:
  "quiet_step w w1 \<Longrightarrow> quiet_step w (w1\<lparr>filesystem := fs'\<rparr>)"
  by (simp add: quiet_step_def)

lemma quiet_then_sound:
  assumes "quiet_step w w1" "sound_outcome w1 w' r"
  shows "sound_outcome w w' r"
proof -
  from assms(1) obtain evs1 where 1: "self w1 = self w" "trace w1 = trace w @ evs1"
    "\<forall>pth data e. WriteBytes pth data (Some e) \<notin> set evs1"
    by (auto simp: quiet_step_def)
  from assms(2) obtain evs2 where 2: "self w' = self w1" "trace w' = trace w1 @ evs2"
    "\<forall>pth data e. WriteBytes pth data (Some e) \<in> set evs2 \<longrightarrow>
        r = Inl e \<and> last evs2 = WriteBytes pth data (Some e)"
    by (auto simp: sound_outcome_def)
  have "\<forall>pth data e. WriteBytes pth data (Some e) \<in> set (evs1 @ evs2) \<longrightarrow>
        r = Inl e \<and> last (evs1 @ evs2) = WriteBytes pth data (Some e)"
  proof (intro allI impI)
    fix pth data e
    assume "WriteBytes pth data (Some e) \<in> set (evs1 @ evs2)"
    with 1(3) have m: "WriteBytes pth data (Some e) \<in> set evs2" by simp
    then have "evs2 \<noteq> []" by auto
    with m 2(3) show "r = Inl e \<and> last (evs1 @ evs2) = WriteBytes pth data (Some e)"
      by simp
  qed
  with 1 2 show ?thesis
    unfolding sound_outcome_def by (intro conjI exI[of _ "evs1 @ evs2"]) simp_all
qed

lemma quiet_sound: "quiet_step w w' \<Longrightarrow> sound_outcome w w' r"
  by (auto simp: quiet_step_def sound_outcome_def)

lemma get_file_content_quiet:
  assumes "get_file_content env kvs w = (w1, r)"
  shows "quiet_step w w1"
proof -
  from get_file_content_effect [OF assms] obtain evs where
    "w1 = w\<lparr>trace := trace w @ evs\<rparr>" "\<forall>ev\<in>set evs. \<not> fs_event ev"
    by blast
  then show ?thesis
    unfolding quiet_step_def by (intro conjI exI[of _ evs]) auto
qed

lemma failed_write_sound:
  assumes "quiet_step w w1"
  shows "sound_outcome w (emit (WriteBytes pth data (Some e)) w1) (Inl e)"
proof -
  from assms obtain evs where 1: "self w1 = self w" "trace w1 = trace w @ evs"
    "\<forall>pth data e. WriteBytes pth data (Some e) \<notin> set evs"
    by (auto simp: quiet_step_def)
  then show ?thesis
    unfolding sound_outcome_def
    by (intro conjI exI[of _ "evs @ [WriteBytes pth data (Some e)]"]) auto
qed

lemma item_step_effect:
  "case item_step env tp item w of
     Raises w1 e \<Rightarrow> sound_outcome w w1 (Inl e)
   | File_done w2 fe \<Rightarrow> quiet_step w w2
   | Enter_dir w1 name item_path \<Rightarrow> quiet_step w w1
   | Skipped \<Rightarrow> True"
proof (cases env tp item w rule: item_step_cases)
  case (raise_early e)
  then show ?thesis by (simp add: quiet_sound quiet_step_refl)
next
  case (fetch_raise kvs name w1 e)
  then show ?thesis by (simp add: quiet_sound get_file_content_quiet)
next
  case (write_raise kvs name w1 data e)
  then show ?thesis by (simp add: failed_write_sound get_file_content_quiet)
next
  case (size_raise kvs name w1 data fs')
  from get_file_content_quiet [OF size_raise(4)]
  have "quiet_step w (emit (WriteBytes (joinpath env tp name) data None) (w1\<lparr>filesystem := fs'\<rparr>))"
    by (intro quiet_step_emit quiet_step_filesystem) simp_all
  with size_raise show ?thesis by (simp add: quiet_sound)
next
  case (file_done kvs name w1 data fs' sz)
  from get_file_content_quiet [OF file_done(4)]
  have "quiet_step w (emit (Print (Downloaded (joinpath env tp name)))
          (emit (WriteBytes (joinpath env tp name) data None) (w1\<lparr>filesystem := fs'\<rparr>)))"
    by (intro quiet_step_emit quiet_step_filesystem) simp_all
  with file_done show ?thesis by simp
next
  case (mkdir_raise kvs name e)
  have "quiet_step w (emit (Mkdir (joinpath env tp name) False True (Some e)) w)"
    by (intro quiet_step_emit quiet_step_refl) simp
  with mkdir_raise show ?thesis by (simp add: quiet_sound)
next
  case (enter_dir kvs name fs')
  have "quiet_step w (emit (Mkdir (joinpath env tp name) False True None) (w\<lparr>filesystem := fs'\<rparr>))"
    by (intro quiet_step_emit quiet_step_filesystem quiet_step_refl) simp
  with enter_dir show ?thesis by simp
next
  case (skipped kvs name ty)
  then show ?thesis by simp
qed

lemma download_items_sound:
  assumes IH: "\<forall>p tp w w' r.
      download_directory_contents n env owner repo p tp w = Some (w', r) \<longrightarrow> sound_outcome w w' r"
  shows "download_items n env owner repo p tp items files dirs w = Some (w', r) \<Longrightarrow>
         sound_outcome w w' r"
proof (induction items arbitrary: files dirs w)
  case Nil
  then show ?case by (simp add: quiet_sound quiet_step_refl)
next
  case (Cons item rest)
  note eff = item_step_effect [where env=env and tp=tp and item=item and w=w]
  show ?case
  proof (cases "item_step env tp item w")
    case (Raises w1 e)
    with Cons.prems eff show ?thesis by (auto simp: download_items_Cons)
  next
    case (File_done w2 fe)
    with Cons.prems have "download_items n env owner repo p tp rest (files @ [fe]) dirs w2 = Some (w', r)"
      by (simp add: download_items_Cons)
    then have "sound_outcome w2 w' r" by (rule Cons.IH)
    with eff File_done show ?thesis by (simp add: quiet_then_sound)
  next
    case (Enter_dir w1 name item_path)
    let ?sub = "download_directory_contents n env owner repo
                  (if p \<noteq> [] then p @ ''/'' @ name else name) item_path w1"
    from eff Enter_dir have q: "quiet_step w w1" by simp
    show ?thesis
    proof (cases ?sub)
      case None
      with Cons.prems Enter_dir show ?thesis by (simp add: download_items_Cons)
    next
      case (Some res)
      obtain w2 r2 where res: "res = (w2, r2)" by (cases res)
      from Some res IH have s2: "sound_outcome w1 w2 r2" by blast
      show ?thesis
      proof (cases r2)
        case (Inl e)
        with Cons.prems Enter_dir Some res have "w' = w2" "r = Inl e"
          by (simp_all add: download_items_Cons)
        with s2 Inl q show ?thesis by (simp add: quiet_then_sound)
      next
        case (Inr sub_result)
        with Cons.prems Enter_dir Some res
        have "download_items n env owner repo p tp rest files
                (dirs @ [DirEntry name item_path sub_result]) w2 = Some (w', r)"
          by (simp add: download_items_Cons)
        then have s3: "sound_outcome w2 w' r" by (rule Cons.IH)
        from s2 have "quiet_step w1 w2"
          by (auto simp: sound_outcome_def quiet_step_def Inr)
        with q have "quiet_step w w2"
          by (auto simp: quiet_step_def)
        from this s3 show ?thesis by (rule quiet_then_sound)
      qed
    qed
  next
    case Skipped
    with Cons.prems have "download_items n env owner repo p tp rest files dirs w = Some (w', r)"
      by (simp add: download_items_Cons)
    then show ?thesis by (rule Cons.IH)
  qed
qed

lemma download_directory_contents_sound:
  "download_directory_contents n env owner repo p tp w = Some (w', r) \<Longrightarrow> sound_outcome w w' r"
proof (induction n arbitrary: p tp w w' r)
  case 0
  then show ?case by simp
next
  case (Suc n)
  let ?url = "JStr (contents_url (self w) owner repo p)"
  let ?w1 = "emit (Get ?url (headers (self w))) w"
  have q: "quiet_step w ?w1"
    by (intro quiet_step_emit quiet_step_refl) simp
  show ?case
  proof (cases "requests_get env ?url (headers (self w))")
    case (Inl e)
    with Suc.prems have "w' = ?w1" "r = Inl e"
      by (simp_all add: http_get_def)
    with q show ?thesis by (simp add: quiet_sound)
  next
    case (Inr response)
    show ?thesis
    proof (cases "status_code response \<noteq> 200")
      case True
      with Inr Suc.prems have
        "w' = emit (Print (Response_text (resp_text response)))
                (emit (Print (Error_fetching_directory_contents (status_code response))) ?w1)"
        by (simp_all add: http_get_def)
      moreover have "quiet_step w (emit (Print (Response_text (resp_text response)))
                (emit (Print (Error_fetching_directory_contents (status_code response))) ?w1))"
        by (intro quiet_step_emit quiet_step_refl) simp_all
      ultimately show ?thesis by (simp add: quiet_sound)
    next
      case False
      show ?thesis
      proof (cases "json response")
        case e: (Inl e)
        with False Inr Suc.prems have "w' = ?w1" by (simp add: http_get_def)
        with q show ?thesis by (simp add: quiet_sound)
      next
        case c: (Inr contents)
        show ?thesis
        proof (cases "py_iter contents")
          case (Inl e)
          with c False Inr Suc.prems have "w' = ?w1" by (simp add: http_get_def)
          with q show ?thesis by (simp add: quiet_sound)
        next
          case items: (Inr items)
          with c False Inr Suc.prems
          have "download_items n env owner repo p tp items [] [] ?w1 = Some (w', r)"
            by (simp add: http_get_def)
          moreover have "\<forall>p tp w w' r.
              download_directory_contents n env owner repo p tp w = Some (w', r) \<longrightarrow>
              sound_outcome w w' r"
            using Suc.IH by blast
          ultimately have "sound_outcome ?w1 w' r"
            using download_items_sound by blast
          with q show ?thesis by (rule quiet_then_sound)
        qed
      qed
    qed
  qed
qed

lemma sound_outcome_self: "sound_outcome w w' r \<Longrightarrow> self w' = self w"
  by (simp add: sound_outcome_def)

lemma quiet_step_self: "quiet_step w w' \<Longrightarrow> self w' = self w"
  by (simp add: quiet_step_def)

lemma fetch_repository_sound:
  assumes "fetch_repository fuel env repo_owner repo_name target_path w = Some (w', r)"
  shows "sound_outcome w w' r"
proof -
  define target where
    "target = (case target_path of None \<Rightarrow> Path env repo_name | Some t \<Rightarrow> Path env t)"
  show ?thesis
  proof (cases "os_mkdir env target True True (filesystem w)")
    case (Inl e)
    with assms have "w' = emit (Mkdir target True True (Some e)) w"
      by (simp add: fetch_repository_def target_def mkdir_fail Let_def)
    moreover have "quiet_step w (emit (Mkdir target True True (Some e)) w)"
      by (intro quiet_step_emit quiet_step_refl) simp
    ultimately show ?thesis by (simp add: quiet_sound)
  next
    case (Inr fs')
    let ?w1 = "emit (Print (Fetching_repository repo_owner repo_name))
                 (emit (Mkdir target True True None) (w\<lparr>filesystem := fs'\<rparr>))"
    from Inr assms
    have "download_directory_contents fuel env repo_owner repo_name [] target ?w1 = Some (w', r)"
      by (simp add: fetch_repository_def target_def mkdir_ok Let_def)
    then have "sound_outcome ?w1 w' r"
      by (rule download_directory_contents_sound)
    moreover have "quiet_step w ?w1"
      by (intro quiet_step_emit quiet_step_filesystem quiet_step_refl) simp_all
    ultimately show ?thesis using quiet_then_sound by blast
  qed
qed

lemma read_context_files_self:
  "read_context_files env fps ctxt w = (w', c) \<Longrightarrow> self w' = self w"
proof (induction fps arbitrary: ctxt w)
  case Nil
  then show ?case by simp
next
  case (Cons file_path rest)
  show ?case
  proof (cases "os_read_text env file_path (filesystem w)")
    case (Inl e)
    with Cons.prems have "read_context_files env rest ctxt
        (emit (Print (Error_reading_context_file file_path (exn_str env e)))
           (emit (ReadText file_path (Some e)) w)) = (w', c)"
      by (simp add: read_text_def)
    from Cons.IH [OF this] show ?thesis by simp
  next
    case (Inr s)
    with Cons.prems have "read_context_files env rest
        (ctxt @ [CHR 0x0A] @ ''# File: '' @ file_path @ [CHR 0x0A] @ s @ [CHR 0x0A])
        (emit (ReadText file_path None) w) = (w', c)"
      by (simp add: read_text_def)
    from Cons.IH [OF this] show ?thesis by simp
  qed
qed

lemma send_copilot_query_self:
  "self (fst (send_copilot_query env query context_files w)) = self w"
proof -
  obtain w1 ctxt where c: "(case context_files of
               None \<Rightarrow> (w, [])
             | Some fps \<Rightarrow> if fps = [] then (w, []) else read_context_files env fps [] w) = (w1, ctxt)"
    by fastforce
  then have "self w1 = self w"
    by (auto split: option.splits if_splits dest: read_context_files_self)
  with c show ?thesis
    by (simp add: send_copilot_query_def Let_def split: sum.split)
qed

lemma run_call_self: "run_call fuel env c w = Some w' \<Longrightarrow> self w' = self w"
proof (cases c)
  case (Call_fetch_repository repo_owner repo_name target_path)
  assume "run_call fuel env c w = Some w'"
  with Call_fetch_repository obtain r where
    "fetch_repository fuel env repo_owner repo_name target_path w = Some (w', r)"
    by auto
  then show ?thesis using fetch_repository_sound sound_outcome_self by blast
next
  case (Call_download_directory_contents owner repo p target_path)
  assume "run_call fuel env c w = Some w'"
  with Call_download_directory_contents obtain r where
    "download_directory_contents fuel env owner repo p target_path w = Some (w', r)"
    by auto
  then show ?thesis using download_directory_contents_sound sound_outcome_self by blast
next
  case (Call_get_file_content file_info)
  assume "run_call fuel env c w = Some w'"
  with Call_get_file_content have "get_file_content env file_info w = (w', snd (get_file_content env file_info w))"
    by auto
  then show ?thesis using get_file_content_quiet quiet_step_self by blast
next
  case (Call_send_copilot_query query context_files)
  assume "run_call fuel env c w = Some w'"
  with Call_send_copilot_query show ?thesis
    by (auto simp: send_copilot_query_self)
qed

lemma run_calls_self: "run_calls fuel env calls w = Some w' \<Longrightarrow> self w' = self w"
proof (induction calls arbitrary: w)
  case Nil
  then show ?case by simp
next
  case (Cons c cs)
  then obtain w1 where 1: "run_call fuel env c w = Some w1" "run_calls fuel env cs w1 = Some w'"
    by (auto split: option.splits)
  from Cons.IH [OF 1(2)] run_call_self [OF 1(1)] show ?case by simp
qed

section \<open>Order of the result lists\<close>

text \<open>The result lists follow the listing.\<close>

lemma download_items_lists:
  "download_items n env owner repo p tp items files dirs w = Some (w', Inr (DirResult fs ds)) \<Longrightarrow>
   map Some fs = map Some files @ map (listed_file env tp) (filter (has_type ''file'') items) \<and>
   map (\<lambda>d. Some (de_name d, de_path d)) ds =
     map (\<lambda>d. Some (de_name d, de_path d)) dirs @
     map (listed_dir env tp) (filter (has_type ''dir'') items)"
proof (induction items arbitrary: files dirs w)
  case Nil
  then show ?case by simp
next
  case (Cons item rest)
  show ?case
  proof (cases env tp item w rule: item_step_cases)
    case (raise_early e)
    with Cons.prems show ?thesis by (simp add: download_items_Cons)
  next
    case (fetch_raise kvs name w1 e)
    with Cons.prems show ?thesis by (simp add: download_items_Cons)
  next
    case (write_raise kvs name w1 data e)
    with Cons.prems show ?thesis by (simp add: download_items_Cons)
  next
    case (size_raise kvs name w1 data fs')
    with Cons.prems show ?thesis by (simp add: download_items_Cons)
  next
    case (mkdir_raise kvs name e)
    with Cons.prems show ?thesis by (simp add: download_items_Cons)
  next
    case (file_done kvs name w1 data fs' sz)
    let ?fe = "FileEntry name (joinpath env tp name) sz"
    from file_done have k: "has_type ''file'' item" "\<not> has_type ''dir'' item"
      "listed_file env tp item = Some ?fe"
      by (simp_all add: has_type_def listed_file_def)
    from Cons.prems file_done(7) obtain w2 where
      "download_items n env owner repo p tp rest (files @ [?fe]) dirs w2 =
         Some (w', Inr (DirResult fs ds))"
      by (simp add: download_items_Cons)
    from Cons.IH [OF this] k show ?thesis by simp
  next
    case (enter_dir kvs name fs')
    let ?ip = "joinpath env tp name"
    from enter_dir have k: "\<not> has_type ''file'' item" "has_type ''dir'' item"
      "listed_dir env tp item = Some (name, ?ip)"
      by (simp_all add: has_type_def listed_dir_def entry_name_def)
    from Cons.prems enter_dir(5) obtain w2 sub_result where
      "download_items n env owner repo p tp rest files (dirs @ [DirEntry name ?ip sub_result]) w2 =
         Some (w', Inr (DirResult fs ds))"
      by (auto simp: download_items_Cons split: option.splits sum.splits)
    from Cons.IH [OF this] k show ?thesis by simp
  next
    case (skipped kvs name ty)
    then have k: "\<not> has_type ''file'' item" "\<not> has_type ''dir'' item"
      by (simp_all add: has_type_def)
    from Cons.prems skipped(6) have
      "download_items n env owner repo p tp rest files dirs w = Some (w', Inr (DirResult fs ds))"
      by (simp add: download_items_Cons)
    from Cons.IH [OF this] k show ?thesis by simp
  qed
qed

lemma download_items_result:
  "download_items n env owner repo p tp items files dirs w = Some (w', Inr (DirResult fs ds)) \<Longrightarrow>
   \<exists>fs' ds'. fs = files @ fs' \<and> ds = dirs @ ds' \<and>
     map Some fs' = map (listed_file env tp) (filter (has_type ''file'') items) \<and>
     map (\<lambda>d. Some (de_name d, de_path d)) ds' =
       map (listed_dir env tp) (filter (has_type ''dir'') items)"
proof (induction items arbitrary: files dirs w)
  case Nil
  then show ?case by simp
next
  case (Cons item rest)
  show ?case
  proof (cases env tp item w rule: item_step_cases)
    case (raise_early e)
    with Cons.prems show ?thesis by (simp add: download_items_Cons)
  next
    case (fetch_raise kvs name w1 e)
    with Cons.prems show ?thesis by (simp add: download_items_Cons)
  next
    case (write_raise kvs name w1 data e)
    with Cons.prems show ?thesis by (simp add: download_items_Cons)
  next
    case (size_raise kvs name w1 data fs')
    with Cons.prems show ?thesis by (simp add: download_items_Cons)
  next
    case (mkdir_raise kvs name e)
    with Cons.prems show ?thesis by (simp add: download_items_Cons)
  next
    case (file_done kvs name w1 data fs' sz)
    let ?fe = "FileEntry name (joinpath env tp name) sz"
    from file_done have k: "has_type ''file'' item" "\<not> has_type ''dir'' item"
      "listed_file env tp item = Some ?fe"
      by (simp_all add: has_type_def listed_file_def)
    from Cons.prems file_done(7) obtain w2 where
      "download_items n env owner repo p tp rest (files @ [?fe]) dirs w2 =
         Some (w', Inr (DirResult fs ds))"
      by (simp add: download_items_Cons)
    from Cons.IH [OF this] obtain fs' ds' where
      "fs = (files @ [?fe]) @ fs'" "ds = dirs @ ds'"
      "map Some fs' = map (listed_file env tp) (filter (has_type ''file'') rest)"
      "map (\<lambda>d. Some (de_name d, de_path d)) ds' =
         map (listed_dir env tp) (filter (has_type ''dir'') rest)"
      by blast
    with k show ?thesis
      by (intro exI[of _ "?fe # fs'"] exI[of _ ds']) simp
  next
    case (enter_dir kvs name fs')
    let ?ip = "joinpath env tp name"
    from enter_dir have k: "\<not> has_type ''file'' item" "has_type ''dir'' item"
      "listed_dir env tp item = Some (name, ?ip)"
      by (simp_all add: has_type_def listed_dir_def entry_name_def)
    from Cons.prems enter_dir(5) obtain w2 sub_result where
      "download_items n env owner repo p tp rest files (dirs @ [DirEntry name ?ip sub_result]) w2 =
         Some (w', Inr (DirResult fs ds))"
      by (auto simp: download_items_Cons split: option.splits sum.splits)
    from Cons.IH [OF this] obtain fs' ds' where
      "fs = files @ fs'" "ds = (dirs @ [DirEntry name ?ip sub_result]) @ ds'"
      "map Some fs' = map (listed_file env tp) (filter (has_type ''file'') rest)"
      "map (\<lambda>d. Some (de_name d, de_path d)) ds' =
         map (listed_dir env tp) (filter (has_type ''dir'') rest)"
      by blast
    with k show ?thesis
      by (intro exI[of _ fs'] exI[of _ "DirEntry name ?ip sub_result # ds'"]) simp
  next
    case (skipped kvs name ty)
    then have k: "\<not> has_type ''file'' item" "\<not> has_type ''dir'' item"
      by (simp_all add: has_type_def)
    from Cons.prems skipped(6) have
      "download_items n env owner repo p tp rest files dirs w = Some (w', Inr (DirResult fs ds))"
      by (simp add: download_items_Cons)
    from Cons.IH [OF this] k show ?thesis by simp
  qed
qed

text \<open>More fuel does not change an outcome.\<close>

lemma download_items_mono:
  assumes IH: "\<forall>p tp w x. download_directory_contents n env owner repo p tp w = Some x \<longrightarrow>
                 download_directory_contents m env owner repo p tp w = Some x"
  shows "download_items n env owner repo p tp items files dirs w = Some x \<Longrightarrow>
         download_items m env owner repo p tp items files dirs w = Some x"
proof (induction items arbitrary: files dirs w)
  case Nil
  then show ?case by simp
next
  case (Cons item rest)
  show ?case
  proof (cases "item_step env tp item w")
    case (Raises w1 e)
    with Cons.prems show ?thesis by (simp add: download_items_Cons)
  next
    case (File_done w2 fe)
    with Cons.prems Cons.IH show ?thesis by (simp add: download_items_Cons)
  next
    case (Enter_dir w1 name item_path)
    let ?sub = "\<lambda>k. download_directory_contents k env owner repo
                  (if p \<noteq> [] then p @ ''/'' @ name else name) item_path w1"
    from Cons.prems Enter_dir obtain res where res: "?sub n = Some res"
      by (auto simp: download_items_Cons split: option.splits)
    with IH have res': "?sub m = Some res" by blast
    obtain w2 r2 where r: "res = (w2, r2)" by (cases res)
    show ?thesis
    proof (cases r2)
      case (Inl e)
      with Cons.prems Enter_dir res res' r show ?thesis by (auto simp: download_items_Cons)
    next
      case (Inr sub_result)
      with Cons.prems Enter_dir res r have
        "download_items n env owner repo p tp rest files
           (dirs @ [DirEntry name item_path sub_result]) w2 = Some x"
        by (simp add: download_items_Cons)
      from Cons.IH [OF this] Enter_dir res' r Inr show ?thesis
        by (simp add: download_items_Cons)
    qed
  next
    case Skipped
    with Cons.prems Cons.IH show ?thesis by (simp add: download_items_Cons)
  qed
qed

lemma download_directory_contents_mono:
  "download_directory_contents n env owner repo p tp w = Some x \<Longrightarrow> n \<le> m \<Longrightarrow>
   download_directory_contents m env owner repo p tp w = Some x"
proof (induction n arbitrary: m p tp w x)
  case 0
  then show ?case by simp
next
  case (Suc n)
  from Suc.prems(2) obtain m' where m: "m = Suc m'" "n \<le> m'"
    by (cases m) simp_all
  have ih: "\<forall>p tp w x. download_directory_contents n env owner repo p tp w = Some x \<longrightarrow>
              download_directory_contents m' env owner repo p tp w = Some x"
    using Suc.IH m(2) by blast
  note mono = download_items_mono [OF ih]
  from Suc.prems(1) show ?case
    unfolding m(1)
    by (auto simp: mono split: prod.splits sum.splits if_splits)
qed

section \<open>Termination on a finite remote tree\<close>

lemma list_all_filter_Cons:
  "list_all P (filter Q (x # xs)) \<Longrightarrow> list_all P (filter Q xs)"
  by (cases "Q x") simp_all

lemma download_items_terminates:
  assumes IH: "\<forall>p tp w. tree_depth_le d env (self w) owner repo p \<longrightarrow>
                 (\<exists>x. download_directory_contents d env owner repo p tp w = Some x)"
  shows "self w = c \<Longrightarrow>
         list_all
           (\<lambda>item. case entry_name item of
              None \<Rightarrow> True
            | Some name \<Rightarrow> tree_depth_le d env c owner repo (sub_path p name))
           (filter (has_type ''dir'') items) \<Longrightarrow>
         \<exists>x. download_items d env owner repo p tp items files dirs w = Some x"
proof (induction items arbitrary: files dirs w)
  case Nil
  then show ?case by simp
next
  case (Cons item rest)
  let ?P = "\<lambda>c item. case entry_name item of
              None \<Rightarrow> True
            | Some name \<Rightarrow> tree_depth_le d env c owner repo (sub_path p name)"
  from Cons.prems(2) have rest: "list_all (?P c) (filter (has_type ''dir'') rest)"
    by (rule list_all_filter_Cons)
  note c = Cons.prems(1)
  show ?case
  proof (cases env tp item w rule: item_step_cases)
    case (raise_early e)
    then show ?thesis by (simp add: download_items_Cons)
  next
    case (fetch_raise kvs name w1 e)
    then show ?thesis by (simp add: download_items_Cons)
  next
    case (write_raise kvs name w1 data e)
    then show ?thesis by (simp add: download_items_Cons)
  next
    case (size_raise kvs name w1 data fs')
    then show ?thesis by (simp add: download_items_Cons)
  next
    case (mkdir_raise kvs name e)
    then show ?thesis by (simp add: download_items_Cons)
  next
    case (file_done kvs name w1 data fs' sz)
    let ?w2 = "emit (Print (Downloaded (joinpath env tp name)))
              (emit (WriteBytes (joinpath env tp name) data None) (w1\<lparr>filesystem := fs'\<rparr>))"
    from get_file_content_quiet [OF file_done(4)] c have "self ?w2 = c"
      by (simp add: quiet_step_def)
    from Cons.IH [OF this rest] file_done(7) show ?thesis
      by (simp add: download_items_Cons)
  next
    case (enter_dir kvs name fs')
    let ?ip = "joinpath env tp name"
    let ?w1 = "emit (Mkdir ?ip False True None) (w\<lparr>filesystem := fs'\<rparr>)"
    have s1: "self ?w1 = c" using c by simp
    from enter_dir have "has_type ''dir'' item" "entry_name item = Some name"
      by (simp_all add: has_type_def entry_name_def)
    with Cons.prems(2) s1 have "tree_depth_le d env (self ?w1) owner repo (sub_path p name)"
      by simp
    with IH obtain res where
      res: "download_directory_contents d env owner repo (sub_path p name) ?ip ?w1 = Some res"
      by blast
    obtain w2 r2 where r: "res = (w2, r2)" by (cases res)
    have sp: "(if p \<noteq> [] then p @ ''/'' @ name else name) = sub_path p name"
      by (simp add: sub_path_def)
    show ?thesis
    proof (cases r2)
      case (Inl e)
      with enter_dir(5) res r sp show ?thesis by (simp add: download_items_Cons)
    next
      case (Inr sub_result)
      from res r have "sound_outcome ?w1 w2 r2"
        by (simp add: download_directory_contents_sound)
      with s1 have "self w2 = c" by (simp add: sound_outcome_def)
      from Cons.IH [OF this rest] enter_dir(5) res r sp Inr show ?thesis
        by (simp add: download_items_Cons)
    qed
  next
    case (skipped kvs name ty)
    from Cons.IH [OF c rest] skipped(6) show ?thesis
      by (simp add: download_items_Cons)
  qed
qed

lemma download_directory_contents_terminates:
  "tree_depth_le d env (self w) owner repo p \<Longrightarrow>
   \<exists>x. download_directory_contents d env owner repo p tp w = Some x"
proof (induction d arbitrary: p tp w)
  case 0
  then show ?case by simp
next
  case (Suc d)
  let ?url = "JStr (contents_url (self w) owner repo p)"
  let ?w1 = "emit (Get ?url (headers (self w))) w"
  have ih: "\<forall>p tp w. tree_depth_le d env (self w) owner repo p \<longrightarrow>
                 (\<exists>x. download_directory_contents d env owner repo p tp w = Some x)"
    using Suc.IH by blast
  show ?case
  proof (cases "requests_get env ?url (headers (self w))")
    case (Inl e)
    then show ?thesis by (simp add: http_get_def)
  next
    case (Inr response)
    show ?thesis
    proof (cases "status_code response \<noteq> 200")
      case True
      with Inr show ?thesis by (simp add: http_get_def)
    next
      case False
      show ?thesis
      proof (cases "json response")
        case e: (Inl e)
        with False Inr show ?thesis by (simp add: http_get_def)
      next
        case c: (Inr contents)
        show ?thesis
        proof (cases "py_iter contents")
          case (Inl e)
          with c False Inr show ?thesis by (simp add: http_get_def)
        next
          case items: (Inr items)
          with c False Inr Suc.prems
          have "list_all
             (\<lambda>item. case entry_name item of
                None \<Rightarrow> True
              | Some name \<Rightarrow> tree_depth_le d env (self w) owner repo (sub_path p name))
             (filter (has_type ''dir'') items)"
            by simp
          moreover have "self ?w1 = self w" by simp
          ultimately
          obtain x where "download_items d env owner repo p tp items [] [] ?w1 = Some x"
            using download_items_terminates [OF ih] by blast
          with items c False Inr show ?thesis by (simp add: http_get_def)
        qed
      qed
    qed
  qed
qed

section \<open>The claims of the specification\<close>

lemma get_file_content_decoded:
  assumes "decoded_remote_content env (headers (self w)) entry = Some data"
  shows "\<exists>w1. get_file_content env entry w = (w1, Inr data)"
proof (cases "inline_content entry")
  case (Some c)
  then have "map_of entry ''content'' = Some c" "truthy c"
    by (auto simp: inline_content_def split: option.splits if_splits)
  with assms have "b64decode env c = Inr data"
    by (simp add: decoded_remote_content_def split: sum.splits)
  with Some show ?thesis by (simp add: get_file_content_def)
next
  case None
  then have "fetched_content env (headers (self w)) entry = Some data"
    using assms
    by (auto simp: inline_content_def decoded_remote_content_def split: option.splits if_splits)
  then obtain url response where
    "map_of entry ''download_url'' = Some url"
    "requests_get env url (headers (self w)) = Inr response"
    "status_code response = 200" "content response = data"
    by (auto simp: fetched_content_def split: option.splits sum.splits if_splits)
  with None show ?thesis by (simp add: get_file_content_def http_get_def)
qed

text \<open>
  C1. For a listing entry of type file whose decoded remote content is \<open>data\<close> (the
  base64 decoding of its inline \<^verbatim>\<open>content\<close> when that is present and true, else the
  body of the GET of its \<^verbatim>\<open>download_url\<close> that answered 200), the first file system
  call the loop makes for it is \<^verbatim>\<open>write_bytes\<close> of exactly \<open>data\<close> at the local
  path \<^verbatim>\<open>target_path / name\<close>, whatever the run does afterwards.
\<close>

theorem file_bytes_are_decoded_remote_content:
  assumes entry: "map_of entry ''name'' = Some (JStr name)"
      "map_of entry ''type'' = Some (JStr ''file'')"
    and remote: "decoded_remote_content env (headers (self w)) entry = Some data"
    and run: "download_items n env owner repo p target_path (JDict entry # rest) files dirs w =
                Some (w', r)"
  shows "\<exists>evs x evs'.
           trace w' = trace w @ evs @ WriteBytes (joinpath env target_path name) data x # evs' \<and>
           (\<forall>ev\<in>set evs. \<not> fs_event ev)"
proof -
  let ?ip = "joinpath env target_path name"
  from get_file_content_decoded [OF remote] obtain w1 where
    g: "get_file_content env entry w = (w1, Inr data)" by blast
  from get_file_content_effect [OF g] obtain evs where
    w1: "w1 = w\<lparr>trace := trace w @ evs\<rparr>" and quiet: "\<forall>ev\<in>set evs. \<not> fs_event ev"
    by blast
  have tr: "trace w1 = trace w @ evs" by (simp add: w1)
  note st = item_step_file [OF entry, of env target_path w]
  show ?thesis
  proof (cases "os_write_bytes env ?ip data (filesystem w1)")
    case (Inl e)
    with st g have "item_step env target_path (JDict entry) w =
        Raises (emit (WriteBytes ?ip data (Some e)) w1) e"
      by (simp add: write_bytes_fail)
    with run have "w' = emit (WriteBytes ?ip data (Some e)) w1"
      by (simp add: download_items_Cons)
    with tr have "trace w' = trace w @ evs @ WriteBytes ?ip data (Some e) # []" by simp
    with quiet show ?thesis by blast
  next
    case (Inr fs')
    let ?w2 = "emit (WriteBytes ?ip data None) (w1\<lparr>filesystem := fs'\<rparr>)"
    have tr2: "trace ?w2 = trace w @ evs @ [WriteBytes ?ip data None]" by (simp add: tr)
    show ?thesis
    proof (cases "map_of entry ''size''")
      case None
      with Inr st g have "item_step env target_path (JDict entry) w = Raises ?w2 (KeyError ''size'')"
        by (simp add: write_bytes_ok)
      with run have "w' = ?w2" by (simp add: download_items_Cons)
      with tr2 have "trace w' = trace w @ evs @ WriteBytes ?ip data None # []" by simp
      with quiet show ?thesis by blast
    next
      case (Some sz)
      let ?w3 = "emit (Print (Downloaded ?ip)) ?w2"
      from Some Inr st g have "item_step env target_path (JDict entry) w =
          File_done ?w3 (FileEntry name ?ip sz)"
        by (simp add: write_bytes_ok)
      with run have "download_items n env owner repo p target_path rest
          (files @ [FileEntry name ?ip sz]) dirs ?w3 = Some (w', r)"
        by (simp add: download_items_Cons)
      moreover have "\<forall>p tp w w' r.
          download_directory_contents n env owner repo p tp w = Some (w', r) \<longrightarrow>
          sound_outcome w w' r"
        using download_directory_contents_sound by blast
      ultimately have "sound_outcome ?w3 w' r"
        using download_items_sound by blast
      then obtain evs2 where "trace w' = trace ?w3 @ evs2"
        by (auto simp: sound_outcome_def)
      with tr have "trace w' =
          trace w @ evs @ WriteBytes ?ip data None # (Print (Downloaded ?ip) # evs2)"
        by simp
      with quiet show ?thesis by blast
    qed
  qed
qed

theorem file_bytes_are_decoded_remote_content_witness:
  "decoded_remote_content (example_env site1 []) (headers (self world0)) a_bin = Some ''abc'' \<and>
   download_items 0 (example_env site1 []) ''o'' ''r'' [] ''r'' [JDict a_bin] [] [] world0 =
     Some (world0
             \<lparr>filesystem := [(''r/a.bin'', Some ''abc'')],
              trace := [Get (JStr ''raw/a.bin'') (headers (self world0)),
                        WriteBytes ''r/a.bin'' ''abc'' None,
                        Print (Downloaded ''r/a.bin'')]\<rparr>,
           Inr (DirResult [FileEntry ''a.bin'' ''r/a.bin'' (JInt 3)] [])) \<and>
   (\<exists>evs x evs'.
      [Get (JStr ''raw/a.bin'') (headers (self world0)),
       WriteBytes ''r/a.bin'' ''abc'' None,
       Print (Downloaded ''r/a.bin'')] =
      trace world0 @ evs @ WriteBytes ''r/a.bin'' ''abc'' x # evs' \<and>
      (\<forall>ev\<in>set evs. \<not> fs_event ev))"
proof -
  have 1: "map_of a_bin ''name'' = Some (JStr ''a.bin'')" by code_simp
  have 2: "map_of a_bin ''type'' = Some (JStr ''file'')" by code_simp
  have 3: "decoded_remote_content (example_env site1 []) (headers (self world0)) a_bin = Some ''abc''"
    by code_simp
  have 4: "download_items 0 (example_env site1 []) ''o'' ''r'' [] ''r'' [JDict a_bin] [] [] world0 =
     Some (world0
             \<lparr>filesystem := [(''r/a.bin'', Some ''abc'')],
              trace := [Get (JStr ''raw/a.bin'') (headers (self world0)),
                        WriteBytes ''r/a.bin'' ''abc'' None,
                        Print (Downloaded ''r/a.bin'')]\<rparr>,
           Inr (DirResult [FileEntry ''a.bin'' ''r/a.bin'' (JInt 3)] []))"
    by code_simp
  have j: "joinpath (example_env site1 []) ''r'' ''a.bin'' = ''r/a.bin''" by code_simp
  from file_bytes_are_decoded_remote_content [OF 1 2 3 4] 3 4 show ?thesis
    unfolding j by simp
qed

lemma download_directory_contents_first_event:
  assumes "download_directory_contents n env owner repo p tp w = Some (w', r)"
  shows "\<exists>evs. trace w' =
           trace w @ Get (JStr (contents_url (self w) owner repo p)) (headers (self w)) # evs"
proof (cases n)
  case 0
  with assms show ?thesis by simp
next
  case (Suc k)
  let ?url = "JStr (contents_url (self w) owner repo p)"
  let ?w1 = "emit (Get ?url (headers (self w))) w"
  have "\<exists>evs. trace w' = trace ?w1 @ evs"
  proof (cases "requests_get env ?url (headers (self w))")
    case (Inl e)
    with assms Suc show ?thesis by (auto simp: http_get_def)
  next
    case (Inr response)
    show ?thesis
    proof (cases "status_code response \<noteq> 200")
      case True
      with Inr assms Suc show ?thesis by (auto simp: http_get_def)
    next
      case False
      show ?thesis
      proof (cases "json response")
        case e: (Inl e)
        with False Inr assms Suc show ?thesis by (auto simp: http_get_def)
      next
        case c: (Inr contents)
        show ?thesis
        proof (cases "py_iter contents")
          case (Inl e)
          with c False Inr assms Suc show ?thesis by (auto simp: http_get_def)
        next
          case items: (Inr items)
          with c False Inr assms Suc
          have "download_items k env owner repo p tp items [] [] ?w1 = Some (w', r)"
            by (simp add: http_get_def)
          moreover have "\<forall>p tp w w' r.
              download_directory_contents k env owner repo p tp w = Some (w', r) \<longrightarrow>
              sound_outcome w w' r"
            using download_directory_contents_sound by blast
          ultimately have "sound_outcome ?w1 w' r"
            using download_items_sound by blast
          then show ?thesis by (auto simp: sound_outcome_def)
        qed
      qed
    qed
  qed
  then show ?thesis by auto
qed

lemma download_items_trace:
  assumes "download_items n env owner repo p tp items files dirs w = Some (w', r)"
  shows "\<exists>evs. trace w' = trace w @ evs"
proof -
  have "\<forall>p tp w w' r.
      download_directory_contents n env owner repo p tp w = Some (w', r) \<longrightarrow>
      sound_outcome w w' r"
    using download_directory_contents_sound by blast
  with assms have "sound_outcome w w' r"
    using download_items_sound by blast
  then show ?thesis by (auto simp: sound_outcome_def)
qed

text \<open>
  C2, as amended. When the listing request answers a status other than 200,
  \<^verbatim>\<open>_download_directory_contents\<close> makes that one request with the client's headers,
  prints the status and the body, and returns \<^verbatim>\<open>{'error': body}\<close> without raising.
  The status is printed only: it is not part of the returned value.
\<close>

theorem listing_error_result_carries_body:
  assumes "requests_get env (JStr (contents_url (self w) owner repo p)) (headers (self w)) =
             Inr response"
    and "status_code response \<noteq> 200"
  shows "download_directory_contents (Suc n) env owner repo p tp w =
           Some (w\<lparr>trace := trace w @
                     [Get (JStr (contents_url (self w) owner repo p)) (headers (self w)),
                      Print (Error_fetching_directory_contents (status_code response)),
                      Print (Response_text (resp_text response))]\<rparr>,
                 Inr (ErrorResult (resp_text response)))"
  using assms by (simp add: http_get_def emit_def)

theorem listing_error_result_carries_body_witness:
  "requests_get (example_env (site_listing_fails 404) [])
     (JStr ''https://api.github.com/repos/o/r/contents/'') (headers (self world0)) =
     Inr (raw 404 ''Not Found'') \<and>
   download_directory_contents (Suc 0) (example_env (site_listing_fails 404) []) ''o'' ''r'' [] ''r''
       world0 =
     Some (world0\<lparr>trace := trace world0 @
             [Get (JStr ''https://api.github.com/repos/o/r/contents/'') (headers (self world0)),
              Print (Error_fetching_directory_contents 404),
              Print (Response_text ''Not Found'')]\<rparr>,
           Inr (ErrorResult ''Not Found''))"
proof -
  have u: "contents_url (self world0) ''o'' ''r'' [] =
             ''https://api.github.com/repos/o/r/contents/''"
    by code_simp
  have 1: "requests_get (example_env (site_listing_fails 404) [])
     (JStr (contents_url (self world0) ''o'' ''r'' [])) (headers (self world0)) =
     Inr (raw 404 ''Not Found'')"
    by code_simp
  have 2: "status_code (raw 404 ''Not Found'') \<noteq> 200" by code_simp
  have r: "status_code (raw 404 ''Not Found'') = 404"
    "resp_text (raw 404 ''Not Found'') = ''Not Found''"
    by (simp_all add: raw_def)
  from listing_error_result_carries_body [OF 1 2, where n=0 and tp="''r''", unfolded u r]
    1 [unfolded u]
  show ?thesis by blast
qed

text \<open>
  The claim C2 as stated fails: a 404 and a 500 with the same body give the same
  returned value, so the value does not carry the status.
\<close>

theorem listing_error_result_lacks_status:
  "status_code (raw 404 ''Not Found'') \<noteq> status_code (raw 500 ''Not Found'') \<and>
   map_option snd
     (download_directory_contents 1 (example_env (site_listing_fails 404) []) ''o'' ''r'' [] ''r''
        world0) =
     Some (Inr (ErrorResult ''Not Found'')) \<and>
   map_option snd
     (download_directory_contents 1 (example_env (site_listing_fails 500) []) ''o'' ''r'' [] ''r''
        world0) =
     Some (Inr (ErrorResult ''Not Found''))"
  by code_simp

text \<open>
  C4. When the listing request of a directory answers a status other than 200, the
  call returns the error dictionary without raising, leaves the local file system as
  it was, and makes no file system call at all.
\<close>

theorem listing_error_creates_nothing:
  assumes "requests_get env (JStr (contents_url (self w) owner repo p)) (headers (self w)) =
             Inr response"
    and "status_code response \<noteq> 200"
  shows "\<exists>w'. download_directory_contents (Suc n) env owner repo p tp w =
                 Some (w', Inr (ErrorResult (resp_text response))) \<and>
              filesystem w' = filesystem w \<and>
              (\<forall>ev\<in>set (drop (length (trace w)) (trace w')). \<not> fs_event ev)"
  using assms by (simp add: http_get_def)

theorem listing_error_creates_nothing_witness:
  "requests_get (example_env (site_listing_fails 404) [])
     (JStr ''https://api.github.com/repos/o/r/contents/'') (headers (self world0)) =
     Inr (raw 404 ''Not Found'') \<and>
   (\<exists>w'. download_directory_contents (Suc 0) (example_env (site_listing_fails 404) [])
            ''o'' ''r'' [] ''r'' world0 =
            Some (w', Inr (ErrorResult ''Not Found'')) \<and>
          filesystem w' = filesystem world0 \<and>
          (\<forall>ev\<in>set (drop (length (trace world0)) (trace w')). \<not> fs_event ev))"
proof -
  have u: "contents_url (self world0) ''o'' ''r'' [] =
             ''https://api.github.com/repos/o/r/contents/''"
    by code_simp
  have 1: "requests_get (example_env (site_listing_fails 404) [])
     (JStr (contents_url (self world0) ''o'' ''r'' [])) (headers (self world0)) =
     Inr (raw 404 ''Not Found'')"
    by code_simp
  have 2: "status_code (raw 404 ''Not Found'') \<noteq> 200" by code_simp
  have r: "resp_text (raw 404 ''Not Found'') = ''Not Found''"
    by (simp add: raw_def)
  from listing_error_creates_nothing [OF 1 2, where n=0 and tp="''r''", unfolded r]
    1 [unfolded u]
  show ?thesis by blast
qed

lemma item_step_failed_download:
  assumes entry: "map_of entry ''name'' = Some (JStr name)"
      "map_of entry ''type'' = Some (JStr ''file'')"
    and inline: "\<forall>c. map_of entry ''content'' = Some c \<longrightarrow> \<not> truthy c"
    and url: "map_of entry ''download_url'' = Some url"
    and get: "requests_get env url (headers (self w)) = Inr response"
    and status: "status_code response \<noteq> 200"
    and wr: "os_write_bytes env (joinpath env target_path name) [] (filesystem w) = Inr fs'"
    and sz: "map_of entry ''size'' = Some sz"
  shows "item_step env target_path (JDict entry) w =
           File_done
             (w\<lparr>filesystem := fs',
                trace := trace w @
                  [Get url (headers (self w)),
                   Print (Error_downloading_file (status_code response)),
                   WriteBytes (joinpath env target_path name) [] None,
                   Print (Downloaded (joinpath env target_path name))]\<rparr>)
             (FileEntry name (joinpath env target_path name) sz)"
proof -
  from inline have "inline_content entry = None"
    by (auto simp: inline_content_def split: option.splits)
  with url get status have g: "get_file_content env entry w =
      (emit (Print (Error_downloading_file (status_code response)))
         (emit (Get url (headers (self w))) w), Inr [])"
    by (simp add: get_file_content_def http_get_def)
  from wr have "write_bytes env (joinpath env target_path name) []
      (emit (Print (Error_downloading_file (status_code response)))
         (emit (Get url (headers (self w))) w)) =
      (emit (WriteBytes (joinpath env target_path name) [] None)
         ((emit (Print (Error_downloading_file (status_code response)))
            (emit (Get url (headers (self w))) w))\<lparr>filesystem := fs'\<rparr>), Inr ())"
    by (simp add: write_bytes_ok)
  with g sz show ?thesis
    by (simp add: item_step_file [OF entry] emit_def)
qed

text \<open>The three ways the loop deals with a file entry whose download answered an error.\<close>

lemma failed_download_cases [consumes 6, case_names write_raises no_size goes_on]:
  assumes entry: "map_of entry ''name'' = Some (JStr name)"
      "map_of entry ''type'' = Some (JStr ''file'')"
    and inline: "\<forall>c. map_of entry ''content'' = Some c \<longrightarrow> \<not> truthy c"
    and url: "map_of entry ''download_url'' = Some url"
    and get: "requests_get env url (headers (self w)) = Inr response"
    and status: "status_code response \<noteq> 200"
  obtains
    (write_raises) e where
      "download_items n env owner repo p target_path (JDict entry # rest) files dirs w =
         Some (w\<lparr>trace := trace w @
                  [Get url (headers (self w)),
                   Print (Error_downloading_file (status_code response)),
                   WriteBytes (joinpath env target_path name) [] (Some e)]\<rparr>, Inl e)"
  | (no_size) fs' where
      "download_items n env owner repo p target_path (JDict entry # rest) files dirs w =
         Some (w\<lparr>filesystem := fs',
                 trace := trace w @
                  [Get url (headers (self w)),
                   Print (Error_downloading_file (status_code response)),
                   WriteBytes (joinpath env target_path name) [] None]\<rparr>,
               Inl (KeyError ''size''))"
  | (goes_on) fs' sz where
      "os_write_bytes env (joinpath env target_path name) [] (filesystem w) = Inr fs'"
      "map_of entry ''size'' = Some sz"
      "download_items n env owner repo p target_path (JDict entry # rest) files dirs w =
         download_items n env owner repo p target_path rest
           (files @ [FileEntry name (joinpath env target_path name) sz]) dirs
           (w\<lparr>filesystem := fs',
              trace := trace w @
                [Get url (headers (self w)),
                 Print (Error_downloading_file (status_code response)),
                 WriteBytes (joinpath env target_path name) [] None,
                 Print (Downloaded (joinpath env target_path name))]\<rparr>)"
proof -
  let ?ip = "joinpath env target_path name"
  let ?w1 = "emit (Print (Error_downloading_file (status_code response)))
               (emit (Get url (headers (self w))) w)"
  from inline have "inline_content entry = None"
    by (auto simp: inline_content_def split: option.splits)
  with url get status have g: "get_file_content env entry w = (?w1, Inr [])"
    by (simp add: get_file_content_def http_get_def)
  note st = item_step_file [OF entry, of env target_path w]
  show thesis
  proof (cases "os_write_bytes env ?ip [] (filesystem w)")
    case (Inl e)
    then have "write_bytes env ?ip [] ?w1 = (emit (WriteBytes ?ip [] (Some e)) ?w1, Inl e)"
      by (simp add: write_bytes_fail)
    with st g have "item_step env target_path (JDict entry) w =
        Raises (emit (WriteBytes ?ip [] (Some e)) ?w1) e"
      by simp
    then show thesis
      by (intro write_raises [of e]) (simp add: download_items_Cons emit_def)
  next
    case (Inr fs')
    then have wr: "write_bytes env ?ip [] ?w1 =
        (emit (WriteBytes ?ip [] None) (?w1\<lparr>filesystem := fs'\<rparr>), Inr ())"
      by (simp add: write_bytes_ok)
    show thesis
    proof (cases "map_of entry ''size''")
      case None
      with st g wr have "item_step env target_path (JDict entry) w =
          Raises (emit (WriteBytes ?ip [] None) (?w1\<lparr>filesystem := fs'\<rparr>)) (KeyError ''size'')"
        by simp
      then show thesis
        by (intro no_size [of fs']) (simp add: download_items_Cons emit_def)
    next
      case (Some sz)
      from item_step_failed_download [OF entry inline url get status Inr Some]
      show thesis
        by (intro goes_on [OF Inr Some]) (simp add: download_items_Cons)
    qed
  qed
qed

text \<open>
  C9. A file entry whose inline content is absent or false (empty) and whose download
  request answers a status other than 200: in every run that comes back the loop has
  called \<^verbatim>\<open>write_bytes\<close> with zero bytes at the entry's local path, right after the
  request and the line that reports the error, and the write succeeded if the run
  returned a result. The returned \<^verbatim>\<open>result['files']\<close> then holds, after the entries
  that were there, the entry \<^verbatim>\<open>{name, path, size}\<close> with the size the listing reports
  (not the zero bytes written): the very entry a successful download gives
  (\<open>listed_file\<close>, which depends on the listing alone), with no mark of the failure.
\<close>

theorem failed_download_writes_empty_file:
  assumes "map_of entry ''name'' = Some (JStr name)"
    and "map_of entry ''type'' = Some (JStr ''file'')"
    and "\<forall>c. map_of entry ''content'' = Some c \<longrightarrow> \<not> truthy c"
    and "map_of entry ''download_url'' = Some url"
    and "requests_get env url (headers (self w)) = Inr response"
    and "status_code response \<noteq> 200"
    and run: "download_items n env owner repo p target_path (JDict entry # rest) files dirs w =
                Some (w', r)"
  shows "(\<exists>x evs.
            trace w' =
              trace w @
              [Get url (headers (self w)),
               Print (Error_downloading_file (status_code response)),
               WriteBytes (joinpath env target_path name) [] x] @ evs \<and>
            ((\<exists>res. r = Inr res) \<longrightarrow> x = None)) \<and>
         (\<forall>fs ds. r = Inr (DirResult fs ds) \<longrightarrow>
            (\<exists>sz fs'.
               map_of entry ''size'' = Some sz \<and>
               listed_file env target_path (JDict entry) =
                 Some (FileEntry name (joinpath env target_path name) sz) \<and>
               fs = files @ FileEntry name (joinpath env target_path name) sz # fs'))"
  using assms(1-6)
proof (cases rule: failed_download_cases
    [where n=n and owner=owner and repo=repo and p=p and target_path=target_path
       and rest=rest and files=files and dirs=dirs])
  case (write_raises e)
  with run have "trace w' = trace w @
      [Get url (headers (self w)), Print (Error_downloading_file (status_code response)),
       WriteBytes (joinpath env target_path name) [] (Some e)] @ []"
    and "r = Inl e"
    by auto
  then show ?thesis by blast
next
  case (no_size fs')
  with run have "trace w' = trace w @
      [Get url (headers (self w)), Print (Error_downloading_file (status_code response)),
       WriteBytes (joinpath env target_path name) [] None] @ []"
    and "r = Inl (KeyError ''size'')"
    by auto
  then show ?thesis by blast
next
  case (goes_on fs' sz)
  let ?ip = "joinpath env target_path name"
  let ?w2 = "w\<lparr>filesystem := fs',
              trace := trace w @
                [Get url (headers (self w)),
                 Print (Error_downloading_file (status_code response)),
                 WriteBytes ?ip [] None, Print (Downloaded ?ip)]\<rparr>"
  from goes_on(3) run have rest: "download_items n env owner repo p target_path rest
      (files @ [FileEntry name ?ip sz]) dirs ?w2 = Some (w', r)"
    by simp
  from download_items_trace [OF rest] obtain evs where "trace w' = trace ?w2 @ evs"
    by blast
  then have t: "trace w' = trace w @
      [Get url (headers (self w)), Print (Error_downloading_file (status_code response)),
       WriteBytes ?ip [] None] @ (Print (Downloaded ?ip) # evs)"
    by simp
  have lf: "listed_file env target_path (JDict entry) = Some (FileEntry name ?ip sz)"
    using assms(1) goes_on(2) by (simp add: listed_file_def)
  have "\<exists>fs'. fs = files @ FileEntry name ?ip sz # fs'" if "r = Inr (DirResult fs ds)" for fs ds
  proof -
    from rest that download_items_result
      [of n env owner repo p target_path rest "files @ [FileEntry name ?ip sz]" dirs ?w2 w' fs ds]
    obtain fs'' where "fs = (files @ [FileEntry name ?ip sz]) @ fs''" by blast
    then show ?thesis by simp
  qed
  with t lf goes_on(2) show ?thesis by blast
qed

theorem failed_download_writes_empty_file_witness:
  "requests_get (example_env (site_download 404) []) (JStr ''raw/a.bin'') (headers (self world0)) =
     Inr (raw 404 ''abc'') \<and>
   download_items 0 (example_env (site_download 404) []) ''o'' ''r'' [] ''r''
       (JDict a_bin # [JDict readme]) [] [] world0 =
     Some (world0
             \<lparr>filesystem := [(''r/README'', Some ''hi''), (''r/a.bin'', Some [])],
              trace := [Get (JStr ''raw/a.bin'') (headers (self world0)),
                        Print (Error_downloading_file 404),
                        WriteBytes ''r/a.bin'' [] None,
                        Print (Downloaded ''r/a.bin''),
                        WriteBytes ''r/README'' ''hi'' None,
                        Print (Downloaded ''r/README'')]\<rparr>,
           Inr (DirResult [FileEntry ''a.bin'' ''r/a.bin'' (JInt 3),
                           FileEntry ''README'' ''r/README'' (JInt 2)] [])) \<and>
   (\<exists>x evs.
      [Get (JStr ''raw/a.bin'') (headers (self world0)),
       Print (Error_downloading_file 404),
       WriteBytes ''r/a.bin'' [] None,
       Print (Downloaded ''r/a.bin''),
       WriteBytes ''r/README'' ''hi'' None,
       Print (Downloaded ''r/README'')] =
      trace world0 @
      [Get (JStr ''raw/a.bin'') (headers (self world0)),
       Print (Error_downloading_file 404),
       WriteBytes ''r/a.bin'' [] x] @ evs \<and>
      x = None) \<and>
   (\<exists>sz fs'.
      map_of a_bin ''size'' = Some sz \<and>
      listed_file (example_env (site_download 404) []) ''r'' (JDict a_bin) =
        Some (FileEntry ''a.bin'' ''r/a.bin'' sz) \<and>
      [FileEntry ''a.bin'' ''r/a.bin'' (JInt 3), FileEntry ''README'' ''r/README'' (JInt 2)] =
        [] @ FileEntry ''a.bin'' ''r/a.bin'' sz # fs')"
proof -
  let ?env = "example_env (site_download 404) []"
  have 1: "map_of a_bin ''name'' = Some (JStr ''a.bin'')" by code_simp
  have 2: "map_of a_bin ''type'' = Some (JStr ''file'')" by code_simp
  have 3: "\<forall>c. map_of a_bin ''content'' = Some c \<longrightarrow> \<not> truthy c"
    by (simp add: a_bin_def)
  have 4: "map_of a_bin ''download_url'' = Some (JStr ''raw/a.bin'')" by code_simp
  have 5: "requests_get ?env (JStr ''raw/a.bin'') (headers (self world0)) = Inr (raw 404 ''abc'')"
    by code_simp
  have 6: "status_code (raw 404 ''abc'') \<noteq> 200" by code_simp
  have 7: "download_items 0 ?env ''o'' ''r'' [] ''r'' (JDict a_bin # [JDict readme]) [] [] world0 =
     Some (world0
             \<lparr>filesystem := [(''r/README'', Some ''hi''), (''r/a.bin'', Some [])],
              trace := [Get (JStr ''raw/a.bin'') (headers (self world0)),
                        Print (Error_downloading_file 404),
                        WriteBytes ''r/a.bin'' [] None,
                        Print (Downloaded ''r/a.bin''),
                        WriteBytes ''r/README'' ''hi'' None,
                        Print (Downloaded ''r/README'')]\<rparr>,
           Inr (DirResult [FileEntry ''a.bin'' ''r/a.bin'' (JInt 3),
                           FileEntry ''README'' ''r/README'' (JInt 2)] []))"
    by code_simp
  have j: "joinpath ?env ''r'' ''a.bin'' = ''r/a.bin''" by code_simp
  have r: "status_code (raw 404 ''abc'') = 404" by (simp add: raw_def)
  note t = failed_download_writes_empty_file [OF 1 2 3 4 5 6 7, unfolded j r]
  from t [THEN conjunct1] have a: "\<exists>x evs.
      [Get (JStr ''raw/a.bin'') (headers (self world0)),
       Print (Error_downloading_file 404),
       WriteBytes ''r/a.bin'' [] None,
       Print (Downloaded ''r/a.bin''),
       WriteBytes ''r/README'' ''hi'' None,
       Print (Downloaded ''r/README'')] =
      trace world0 @
      [Get (JStr ''raw/a.bin'') (headers (self world0)),
       Print (Error_downloading_file 404),
       WriteBytes ''r/a.bin'' [] x] @ evs \<and>
      x = None"
    by simp
  from t [THEN conjunct2, rule_format, OF refl] have b: "\<exists>sz fs'.
      map_of a_bin ''size'' = Some sz \<and>
      listed_file ?env ''r'' (JDict a_bin) = Some (FileEntry ''a.bin'' ''r/a.bin'' sz) \<and>
      [FileEntry ''a.bin'' ''r/a.bin'' (JInt 3), FileEntry ''README'' ''r/README'' (JInt 2)] =
        [] @ FileEntry ''a.bin'' ''r/a.bin'' sz # fs'"
    by simp
  from 5 7 a b show ?thesis by blast
qed

lemma item_step_enter_dir:
  assumes "map_of entry ''name'' = Some (JStr name)"
    and "map_of entry ''type'' = Some (JStr ''dir'')"
    and "os_mkdir env (joinpath env target_path name) False True (filesystem w) = Inr fs'"
  shows "item_step env target_path (JDict entry) w =
           Enter_dir (emit (Mkdir (joinpath env target_path name) False True None)
                        (w\<lparr>filesystem := fs'\<rparr>))
             name (joinpath env target_path name)"
  using assms by (simp add: item_step_dir mkdir_ok)

lemma sub_path_if: "(if p \<noteq> [] then p @ ''/'' @ name else name) = sub_path p name"
  by (simp add: sub_path_def)

text \<open>
  C5. For an entry of type directory met while processing the remote path \<open>p\<close>, the
  loop first makes the local directory \<^verbatim>\<open>target_path / name\<close> and then calls itself
  with the remote path \<open>sub_path p name\<close> (\<open>name\<close> when \<open>p\<close> is empty, else \<open>p\<close>, a
  slash and \<open>name\<close>) and with that local path. In the trace of any run that comes back,
  the \<^verbatim>\<open>mkdir\<close> is followed at once by the listing request of the subdirectory.
\<close>

theorem directory_entry_mkdir_then_recurse:
  assumes "map_of entry ''name'' = Some (JStr name)"
    and "map_of entry ''type'' = Some (JStr ''dir'')"
    and "os_mkdir env (joinpath env target_path name) False True (filesystem w) = Inr fs'"
  shows "download_items n env owner repo p target_path (JDict entry # rest) files dirs w =
           (case download_directory_contents n env owner repo (sub_path p name)
                   (joinpath env target_path name)
                   (emit (Mkdir (joinpath env target_path name) False True None)
                      (w\<lparr>filesystem := fs'\<rparr>)) of
              None \<Rightarrow> None
            | Some (w2, Inl e) \<Rightarrow> Some (w2, Inl e)
            | Some (w2, Inr sub_result) \<Rightarrow>
                download_items n env owner repo p target_path rest files
                  (dirs @ [DirEntry name (joinpath env target_path name) sub_result]) w2) \<and>
         (\<forall>w' r. download_items n env owner repo p target_path (JDict entry # rest) files dirs w =
                    Some (w', r) \<longrightarrow>
            (\<exists>evs. trace w' =
               trace w @
               Mkdir (joinpath env target_path name) False True None #
               Get (JStr (contents_url (self w) owner repo (sub_path p name))) (headers (self w)) #
               evs))"
proof -
  let ?ip = "joinpath env target_path name"
  let ?w1 = "emit (Mkdir ?ip False True None) (w\<lparr>filesystem := fs'\<rparr>)"
  let ?sub = "download_directory_contents n env owner repo (sub_path p name) ?ip ?w1"
  note st = item_step_enter_dir [OF assms]
  have eq: "download_items n env owner repo p target_path (JDict entry # rest) files dirs w =
           (case ?sub of
              None \<Rightarrow> None
            | Some (w2, Inl e) \<Rightarrow> Some (w2, Inl e)
            | Some (w2, Inr sub_result) \<Rightarrow>
                download_items n env owner repo p target_path rest files
                  (dirs @ [DirEntry name ?ip sub_result]) w2)"
    by (simp add: download_items_Cons st sub_path_if)
  have "\<exists>evs. trace w' = trace w @ Mkdir ?ip False True None #
               Get (JStr (contents_url (self w) owner repo (sub_path p name))) (headers (self w)) #
               evs"
    if run: "download_items n env owner repo p target_path (JDict entry # rest) files dirs w =
               Some (w', r)" for w' r
  proof -
    from run eq obtain w2 r2 where sub: "?sub = Some (w2, r2)"
      by (cases ?sub) auto
    from download_directory_contents_first_event [OF sub] obtain evs where
      t2: "trace w2 = trace w @ Mkdir ?ip False True None #
             Get (JStr (contents_url (self w) owner repo (sub_path p name))) (headers (self w)) #
             evs"
      by auto
    show ?thesis
    proof (cases r2)
      case (Inl e)
      with run eq sub have "w' = w2" by simp
      with t2 show ?thesis by blast
    next
      case (Inr sub_result)
      with run eq sub have "download_items n env owner repo p target_path rest files
          (dirs @ [DirEntry name ?ip sub_result]) w2 = Some (w', r)"
        by simp
      from download_items_trace [OF this] obtain evs' where "trace w' = trace w2 @ evs'"
        by blast
      with t2 show ?thesis by simp
    qed
  qed
  with eq show ?thesis by blast
qed

theorem directory_entry_mkdir_then_recurse_witness:
  "download_items 1 (example_env site1 []) ''o'' ''r'' [] ''r'' (JDict src # [JDict a_bin]) [] []
       world0 =
     Some (world0
             \<lparr>filesystem := [(''r/a.bin'', Some ''abc''), (''r/src/a.bin'', Some ''abc''),
                             (''r/src'', None)],
              trace := [Mkdir ''r/src'' False True None,
                        Get (JStr ''https://api.github.com/repos/o/r/contents/src'')
                          (headers (self world0)),
                        Get (JStr ''raw/a.bin'') (headers (self world0)),
                        WriteBytes ''r/src/a.bin'' ''abc'' None,
                        Print (Downloaded ''r/src/a.bin''),
                        Get (JStr ''raw/a.bin'') (headers (self world0)),
                        WriteBytes ''r/a.bin'' ''abc'' None,
                        Print (Downloaded ''r/a.bin'')]\<rparr>,
           Inr (DirResult [FileEntry ''a.bin'' ''r/a.bin'' (JInt 3)]
                  [DirEntry ''src'' ''r/src''
                     (DirResult [FileEntry ''a.bin'' ''r/src/a.bin'' (JInt 3)] [])])) \<and>
   (\<exists>evs. [Mkdir ''r/src'' False True None,
            Get (JStr ''https://api.github.com/repos/o/r/contents/src'') (headers (self world0)),
            Get (JStr ''raw/a.bin'') (headers (self world0)),
            WriteBytes ''r/src/a.bin'' ''abc'' None,
            Print (Downloaded ''r/src/a.bin''),
            Get (JStr ''raw/a.bin'') (headers (self world0)),
            WriteBytes ''r/a.bin'' ''abc'' None,
            Print (Downloaded ''r/a.bin'')] =
          trace world0 @
          Mkdir ''r/src'' False True None #
          Get (JStr ''https://api.github.com/repos/o/r/contents/src'') (headers (self world0)) #
          evs)"
proof -
  let ?env = "example_env site1 []"
  have 1: "map_of src ''name'' = Some (JStr ''src'')" by code_simp
  have 2: "map_of src ''type'' = Some (JStr ''dir'')" by code_simp
  have 3: "os_mkdir ?env (joinpath ?env ''r'' ''src'') False True (filesystem world0) =
             Inr [(''r/src'', None)]"
    by code_simp
  have run: "download_items 1 ?env ''o'' ''r'' [] ''r'' (JDict src # [JDict a_bin]) [] [] world0 =
     Some (world0
             \<lparr>filesystem := [(''r/a.bin'', Some ''abc''), (''r/src/a.bin'', Some ''abc''),
                             (''r/src'', None)],
              trace := [Mkdir ''r/src'' False True None,
                        Get (JStr ''https://api.github.com/repos/o/r/contents/src'')
                          (headers (self world0)),
                        Get (JStr ''raw/a.bin'') (headers (self world0)),
                        WriteBytes ''r/src/a.bin'' ''abc'' None,
                        Print (Downloaded ''r/src/a.bin''),
                        Get (JStr ''raw/a.bin'') (headers (self world0)),
                        WriteBytes ''r/a.bin'' ''abc'' None,
                        Print (Downloaded ''r/a.bin'')]\<rparr>,
           Inr (DirResult [FileEntry ''a.bin'' ''r/a.bin'' (JInt 3)]
                  [DirEntry ''src'' ''r/src''
                     (DirResult [FileEntry ''a.bin'' ''r/src/a.bin'' (JInt 3)] [])]))"
    by code_simp
  have j: "joinpath ?env ''r'' ''src'' = ''r/src''" by code_simp
  have u: "contents_url (self world0) ''o'' ''r'' (sub_path [] ''src'') =
             ''https://api.github.com/repos/o/r/contents/src''"
    by code_simp
  from directory_entry_mkdir_then_recurse
    [OF 1 2 3, THEN conjunct2, rule_format, OF run, unfolded j u] run
  show ?thesis by simp
qed





lemma download_items_segments:
  "download_items n env owner repo p tp items files dirs w = Some (w', Inr (DirResult fs ds)) \<Longrightarrow>
   \<exists>segs. trace w' = trace w @ concat segs \<and>
          list_all2 (entry_segment env owner repo p tp (self w)) items segs"
proof (induction items arbitrary: files dirs w)
  case Nil
  then show ?case by simp
next
  case (Cons item rest)
  show ?case
  proof (cases env tp item w rule: item_step_cases)
    case (raise_early e)
    with Cons.prems show ?thesis by (simp add: download_items_Cons)
  next
    case (fetch_raise kvs name w1 e)
    with Cons.prems show ?thesis by (simp add: download_items_Cons)
  next
    case (write_raise kvs name w1 data e)
    with Cons.prems show ?thesis by (simp add: download_items_Cons)
  next
    case (size_raise kvs name w1 data fs')
    with Cons.prems show ?thesis by (simp add: download_items_Cons)
  next
    case (mkdir_raise kvs name e)
    with Cons.prems show ?thesis by (simp add: download_items_Cons)
  next
    case (file_done kvs name w1 data fs' sz)
    let ?ip = "joinpath env tp name"
    let ?w2 = "emit (Print (Downloaded ?ip)) (emit (WriteBytes ?ip data None) (w1\<lparr>filesystem := fs'\<rparr>))"
    from get_file_content_effect [OF file_done(4)] obtain pre where
      w1: "w1 = w\<lparr>trace := trace w @ pre\<rparr>" and quiet: "\<forall>ev\<in>set pre. \<not> fs_event ev"
      by blast
    let ?seg = "pre @ [WriteBytes ?ip data None, Print (Downloaded ?ip)]"
    have t2: "trace ?w2 = trace w @ ?seg" and s2: "self ?w2 = self w"
      by (simp_all add: w1)
    from file_done have "entry_name item = Some name" "has_type ''file'' item"
      by (simp_all add: entry_name_def has_type_def)
    with quiet have seg: "entry_segment env owner repo p tp (self w) item ?seg"
      unfolding entry_segment_def by auto
    from Cons.prems file_done(7) have
      "download_items n env owner repo p tp rest (files @ [FileEntry name ?ip sz]) dirs ?w2 =
         Some (w', Inr (DirResult fs ds))"
      by (simp add: download_items_Cons)
    from Cons.IH [OF this] obtain segs where
      "trace w' = trace ?w2 @ concat segs"
      "list_all2 (entry_segment env owner repo p tp (self ?w2)) rest segs"
      by blast
    with t2 s2 seg show ?thesis
      by (intro exI[of _ "?seg # segs"]) simp
  next
    case (enter_dir kvs name fs')
    let ?ip = "joinpath env tp name"
    let ?w1 = "emit (Mkdir ?ip False True None) (w\<lparr>filesystem := fs'\<rparr>)"
    let ?sub = "download_directory_contents n env owner repo (sub_path p name) ?ip ?w1"
    from Cons.prems enter_dir(5) obtain w2 sub_result where
      sub: "?sub = Some (w2, Inr sub_result)" and
      run: "download_items n env owner repo p tp rest files
              (dirs @ [DirEntry name ?ip sub_result]) w2 = Some (w', Inr (DirResult fs ds))"
      by (auto simp: download_items_Cons sub_path_if split: option.splits sum.splits)
    from download_directory_contents_first_event [OF sub] obtain evs where
      "trace w2 = trace ?w1 @
         Get (JStr (contents_url (self ?w1) owner repo (sub_path p name))) (headers (self ?w1)) # evs"
      by blast
    then have t2: "trace w2 = trace w @
        (Mkdir ?ip False True None #
         Get (JStr (contents_url (self w) owner repo (sub_path p name))) (headers (self w)) # evs)"
      by simp
    from download_directory_contents_sound [OF sub] have s2: "self w2 = self w"
      by (simp add: sound_outcome_def)
    from enter_dir have "entry_name item = Some name" "has_type ''dir'' item"
      "\<not> has_type ''file'' item"
      by (simp_all add: entry_name_def has_type_def)
    then have seg: "entry_segment env owner repo p tp (self w) item
        (Mkdir ?ip False True None #
         Get (JStr (contents_url (self w) owner repo (sub_path p name))) (headers (self w)) # evs)"
      unfolding entry_segment_def by simp
    from Cons.IH [OF run] obtain segs where
      "trace w' = trace w2 @ concat segs"
      "list_all2 (entry_segment env owner repo p tp (self w2)) rest segs"
      by blast
    with t2 s2 seg show ?thesis
      by (intro exI[of _ "(Mkdir ?ip False True None #
         Get (JStr (contents_url (self w) owner repo (sub_path p name))) (headers (self w)) # evs)
         # segs"]) simp
  next
    case (skipped kvs name ty)
    then have "entry_name item = Some name" "\<not> has_type ''file'' item" "\<not> has_type ''dir'' item"
      by (simp_all add: entry_name_def has_type_def)
    then have seg: "entry_segment env owner repo p tp (self w) item []"
      unfolding entry_segment_def by simp
    from Cons.prems skipped(6) have
      "download_items n env owner repo p tp rest files dirs w = Some (w', Inr (DirResult fs ds))"
      by (simp add: download_items_Cons)
    from Cons.IH [OF this] obtain segs where
      "trace w' = trace w @ concat segs"
      "list_all2 (entry_segment env owner repo p tp (self w)) rest segs"
      by blast
    with seg show ?thesis
      by (intro exI[of _ "[] # segs"]) simp
  qed
qed

text \<open>
  C6. After a listing request that answers 200 with a body that decodes and can be
  iterated, a call that returns a result has processed the entries one after the other
  in the order of the listing: what the call did after the listing request is, entry by
  entry in that order, the effects of that entry (\<open>entry_segment\<close>: the write of a file
  entry, the \<^verbatim>\<open>mkdir\<close> and the recursive call of a directory entry), with nothing
  before, between or after. \<^verbatim>\<open>result['files']\<close> holds exactly the entries of the
  listing's file entries in the order of the listing, and \<^verbatim>\<open>result['directories']\<close>
  the names and paths of the listing's directory entries in the order of the listing:
  nothing is sorted, dropped or added.
\<close>

theorem result_lists_in_listing_order:
  assumes "requests_get env (JStr (contents_url (self w) owner repo p)) (headers (self w)) =
             Inr response"
    and "status_code response = 200"
    and "json response = Inr contents"
    and "py_iter contents = Inr items"
    and "download_directory_contents (Suc n) env owner repo p target_path w =
           Some (w', Inr (DirResult fs ds))"
  shows "(\<exists>segs. trace w' =
            trace w @
            Get (JStr (contents_url (self w) owner repo p)) (headers (self w)) # concat segs \<and>
            list_all2 (entry_segment env owner repo p target_path (self w)) items segs) \<and>
         map Some fs = map (listed_file env target_path) (filter (has_type ''file'') items) \<and>
         map (\<lambda>d. Some (de_name d, de_path d)) ds =
           map (listed_dir env target_path) (filter (has_type ''dir'') items)"
proof -
  let ?w1 = "emit (Get (JStr (contents_url (self w) owner repo p)) (headers (self w))) w"
  from assms have run: "download_items n env owner repo p target_path items [] [] ?w1 =
      Some (w', Inr (DirResult fs ds))"
    by (simp add: http_get_def)
  from download_items_segments [OF run] obtain segs where
    "trace w' = trace ?w1 @ concat segs"
    "list_all2 (entry_segment env owner repo p target_path (self ?w1)) items segs"
    by blast
  then have "trace w' =
            trace w @
            Get (JStr (contents_url (self w) owner repo p)) (headers (self w)) # concat segs \<and>
            list_all2 (entry_segment env owner repo p target_path (self w)) items segs"
    by simp
  with download_items_lists [OF run] show ?thesis by auto
qed

theorem result_lists_in_listing_order_witness:
  "download_directory_contents (Suc 1) (example_env site1 []) ''o'' ''r'' [] ''r'' world0 =
     Some (world0
             \<lparr>filesystem := [(''r/a.bin'', Some ''abc''), (''r/src/a.bin'', Some ''abc''),
                             (''r/src'', None), (''r/README'', Some ''hi'')],
              trace := [Get (JStr ''https://api.github.com/repos/o/r/contents/'')
                          (headers (self world0)),
                        WriteBytes ''r/README'' ''hi'' None,
                        Print (Downloaded ''r/README''),
                        Mkdir ''r/src'' False True None,
                        Get (JStr ''https://api.github.com/repos/o/r/contents/src'')
                          (headers (self world0)),
                        Get (JStr ''raw/a.bin'') (headers (self world0)),
                        WriteBytes ''r/src/a.bin'' ''abc'' None,
                        Print (Downloaded ''r/src/a.bin''),
                        Get (JStr ''raw/a.bin'') (headers (self world0)),
                        WriteBytes ''r/a.bin'' ''abc'' None,
                        Print (Downloaded ''r/a.bin'')]\<rparr>,
           Inr (DirResult
                  [FileEntry ''README'' ''r/README'' (JInt 2), FileEntry ''a.bin'' ''r/a.bin'' (JInt 3)]
                  [DirEntry ''src'' ''r/src''
                     (DirResult [FileEntry ''a.bin'' ''r/src/a.bin'' (JInt 3)] [])])) \<and>
   (\<exists>segs. [Get (JStr ''https://api.github.com/repos/o/r/contents/'') (headers (self world0)),
             WriteBytes ''r/README'' ''hi'' None,
             Print (Downloaded ''r/README''),
             Mkdir ''r/src'' False True None,
             Get (JStr ''https://api.github.com/repos/o/r/contents/src'') (headers (self world0)),
             Get (JStr ''raw/a.bin'') (headers (self world0)),
             WriteBytes ''r/src/a.bin'' ''abc'' None,
             Print (Downloaded ''r/src/a.bin''),
             Get (JStr ''raw/a.bin'') (headers (self world0)),
             WriteBytes ''r/a.bin'' ''abc'' None,
             Print (Downloaded ''r/a.bin'')] =
           trace world0 @
           Get (JStr ''https://api.github.com/repos/o/r/contents/'') (headers (self world0)) #
           concat segs \<and>
           list_all2 (entry_segment (example_env site1 []) ''o'' ''r'' [] ''r'' (self world0))
             [JDict readme, JDict src, JDict a_bin] segs) \<and>
   map Some [FileEntry ''README'' ''r/README'' (JInt 2), FileEntry ''a.bin'' ''r/a.bin'' (JInt 3)] =
     map (listed_file (example_env site1 []) ''r'')
       (filter (has_type ''file'') [JDict readme, JDict src, JDict a_bin]) \<and>
   map (\<lambda>d. Some (de_name d, de_path d))
     [DirEntry ''src'' ''r/src'' (DirResult [FileEntry ''a.bin'' ''r/src/a.bin'' (JInt 3)] [])] =
     map (listed_dir (example_env site1 []) ''r'')
       (filter (has_type ''dir'') [JDict readme, JDict src, JDict a_bin])"
proof -
  let ?env = "example_env site1 []"
  let ?items = "[JDict readme, JDict src, JDict a_bin]"
  have u: "contents_url (self world0) ''o'' ''r'' [] =
             ''https://api.github.com/repos/o/r/contents/''"
    by code_simp
  have 1: "requests_get ?env (JStr (contents_url (self world0) ''o'' ''r'' []))
             (headers (self world0)) = Inr (listing ?items)"
    by code_simp
  have 2: "status_code (listing ?items) = 200" by code_simp
  have 3: "json (listing ?items) = Inr (JList ?items)" by code_simp
  have 4: "py_iter (JList ?items) = Inr ?items" by simp
  have 5: "download_directory_contents (Suc 1) ?env ''o'' ''r'' [] ''r'' world0 =
     Some (world0
             \<lparr>filesystem := [(''r/a.bin'', Some ''abc''), (''r/src/a.bin'', Some ''abc''),
                             (''r/src'', None), (''r/README'', Some ''hi'')],
              trace := [Get (JStr ''https://api.github.com/repos/o/r/contents/'')
                          (headers (self world0)),
                        WriteBytes ''r/README'' ''hi'' None,
                        Print (Downloaded ''r/README''),
                        Mkdir ''r/src'' False True None,
                        Get (JStr ''https://api.github.com/repos/o/r/contents/src'')
                          (headers (self world0)),
                        Get (JStr ''raw/a.bin'') (headers (self world0)),
                        WriteBytes ''r/src/a.bin'' ''abc'' None,
                        Print (Downloaded ''r/src/a.bin''),
                        Get (JStr ''raw/a.bin'') (headers (self world0)),
                        WriteBytes ''r/a.bin'' ''abc'' None,
                        Print (Downloaded ''r/a.bin'')]\<rparr>,
           Inr (DirResult
                  [FileEntry ''README'' ''r/README'' (JInt 2), FileEntry ''a.bin'' ''r/a.bin'' (JInt 3)]
                  [DirEntry ''src'' ''r/src''
                     (DirResult [FileEntry ''a.bin'' ''r/src/a.bin'' (JInt 3)] [])]))"
    by code_simp
  from result_lists_in_listing_order [OF 1 2 3 4 5, unfolded u] 5 show ?thesis by simp
qed

text \<open>
  C7. In a run of \<^verbatim>\<open>fetch_repository\<close> that comes back, a \<^verbatim>\<open>write_bytes\<close> that raised
  is the last effect of the run and its exception is what the caller of
  \<^verbatim>\<open>fetch_repository\<close> gets: nothing catches it, records it or goes on after it.
\<close>

theorem write_failure_reaches_caller:
  assumes "fetch_repository fuel env repo_owner repo_name target_path w = Some (w', r)"
    and "WriteBytes pth data (Some e) \<in> set (drop (length (trace w)) (trace w'))"
  shows "r = Inl e \<and> last (trace w') = WriteBytes pth data (Some e)"
proof -
  from fetch_repository_sound [OF assms(1)] obtain evs where
    t: "trace w' = trace w @ evs"
    and f: "\<forall>pth data e. WriteBytes pth data (Some e) \<in> set evs \<longrightarrow>
              r = Inl e \<and> last evs = WriteBytes pth data (Some e)"
    by (auto simp: sound_outcome_def)
  from assms(2) t have m: "WriteBytes pth data (Some e) \<in> set evs" by simp
  then have "evs \<noteq> []" by auto
  with m f t show ?thesis by simp
qed

theorem write_failure_reaches_caller_witness:
  "fetch_repository 2 (example_env site1 [''r/src/a.bin'']) ''o'' ''r'' None world0 =
     Some (world0
             \<lparr>filesystem := [(''r/src'', None), (''r/README'', Some ''hi''), (''r'', None)],
              trace := [Mkdir ''r'' True True None,
                        Print (Fetching_repository ''o'' ''r''),
                        Get (JStr ''https://api.github.com/repos/o/r/contents/'')
                          (headers (self world0)),
                        WriteBytes ''r/README'' ''hi'' None,
                        Print (Downloaded ''r/README''),
                        Mkdir ''r/src'' False True None,
                        Get (JStr ''https://api.github.com/repos/o/r/contents/src'')
                          (headers (self world0)),
                        Get (JStr ''raw/a.bin'') (headers (self world0)),
                        WriteBytes ''r/src/a.bin'' ''abc'' (Some (Raised ''PermissionError''))]\<rparr>,
           Inl (Raised ''PermissionError'')) \<and>
   last [Mkdir ''r'' True True None,
         Print (Fetching_repository ''o'' ''r''),
         Get (JStr ''https://api.github.com/repos/o/r/contents/'') (headers (self world0)),
         WriteBytes ''r/README'' ''hi'' None,
         Print (Downloaded ''r/README''),
         Mkdir ''r/src'' False True None,
         Get (JStr ''https://api.github.com/repos/o/r/contents/src'') (headers (self world0)),
         Get (JStr ''raw/a.bin'') (headers (self world0)),
         WriteBytes ''r/src/a.bin'' ''abc'' (Some (Raised ''PermissionError''))] =
     WriteBytes ''r/src/a.bin'' ''abc'' (Some (Raised ''PermissionError''))"
proof -
  let ?tr = "[Mkdir ''r'' True True None,
              Print (Fetching_repository ''o'' ''r''),
              Get (JStr ''https://api.github.com/repos/o/r/contents/'') (headers (self world0)),
              WriteBytes ''r/README'' ''hi'' None,
              Print (Downloaded ''r/README''),
              Mkdir ''r/src'' False True None,
              Get (JStr ''https://api.github.com/repos/o/r/contents/src'') (headers (self world0)),
              Get (JStr ''raw/a.bin'') (headers (self world0)),
              WriteBytes ''r/src/a.bin'' ''abc'' (Some (Raised ''PermissionError''))]"
  let ?w' = "world0\<lparr>filesystem := [(''r/src'', None), (''r/README'', Some ''hi''), (''r'', None)],
                    trace := ?tr\<rparr>"
  have 1: "fetch_repository 2 (example_env site1 [''r/src/a.bin'']) ''o'' ''r'' None world0 =
             Some (?w', Inl (Raised ''PermissionError''))"
    by code_simp
  have 2: "WriteBytes ''r/src/a.bin'' ''abc'' (Some (Raised ''PermissionError''))
             \<in> set (drop (length (trace world0)) (trace ?w'))"
    by (simp add: world0_def)
  from write_failure_reaches_caller [OF 1 2] 1 show ?thesis by simp
qed

text \<open>
  C8. The fields of the client are set by \<^verbatim>\<open>__init__\<close> and no method assigns to them:
  after any sequence of calls of \<^verbatim>\<open>fetch_repository\<close>,
  \<^verbatim>\<open>_download_directory_contents\<close>, \<^verbatim>\<open>_get_file_content\<close> and \<^verbatim>\<open>send_copilot_query\<close>
  that comes back, whatever the calls returned or raised, \<^verbatim>\<open>username\<close>,
  \<^verbatim>\<open>pat_token\<close>, \<^verbatim>\<open>headers\<close> and \<^verbatim>\<open>base_url\<close> are what the constructor made them.
\<close>

theorem credentials_never_modified:
  assumes "self w = init user token"
    and "run_calls fuel env calls w = Some w'"
  shows "self w' = self w \<and>
         username (self w') = user \<and>
         pat_token (self w') = token \<and>
         headers (self w') =
           [(''Authorization'', ''token '' @ token),
            (''Accept'', ''application/vnd.github.v3+json''),
            (''User-Agent'', ''GitHub-Copilot-Client-'' @ user)] \<and>
         base_url (self w') = ''https://api.github.com''"
  using run_calls_self [OF assms(2)] assms(1) by (simp add: init_def)

theorem credentials_never_modified_witness:
  "\<exists>w'. run_calls 2 (example_env site1 [])
           [Call_fetch_repository ''o'' ''r'' None,
            Call_send_copilot_query ''q'' (Some [''r/README'', ''missing'']),
            Call_download_directory_contents ''o'' ''r'' ''src'' ''r/src'',
            Call_get_file_content a_bin] world0 = Some w' \<and>
         self w' = self world0 \<and>
         username (self w') = ''u'' \<and>
         pat_token (self w') = ''t'' \<and>
         headers (self w') =
           [(''Authorization'', ''token '' @ ''t''),
            (''Accept'', ''application/vnd.github.v3+json''),
            (''User-Agent'', ''GitHub-Copilot-Client-'' @ ''u'')] \<and>
         base_url (self w') = ''https://api.github.com''"
proof -
  let ?run = "run_calls 2 (example_env site1 [])
           [Call_fetch_repository ''o'' ''r'' None,
            Call_send_copilot_query ''q'' (Some [''r/README'', ''missing'']),
            Call_download_directory_contents ''o'' ''r'' ''src'' ''r/src'',
            Call_get_file_content a_bin] world0"
  have 1: "self world0 = init ''u'' ''t''" by (simp add: world0_def)
  have "?run \<noteq> None" by code_simp
  then obtain w' where 2: "?run = Some w'" by blast
  from credentials_never_modified [OF 1 2] 2 show ?thesis by blast
qed

text \<open>
  C10, as amended. When the remote tree below \<open>p\<close> is finite, with directories nested at
  most \<open>d\<close> deep, \<^verbatim>\<open>_download_directory_contents\<close> terminates: fuel \<open>d\<close> is enough
  for an outcome, and more fuel gives the same outcome. The outcome is a returned result
  or an exception that leaves the call; it need not be a result. (The interpreter's own
  limit on the depth of recursion is not modelled; it too ends the call with an
  exception.)
\<close>

theorem download_terminates_on_finite_tree:
  assumes "tree_depth_le d env (self w) owner repo p"
  shows "\<exists>w' r. \<forall>fuel\<ge>d.
           download_directory_contents fuel env owner repo p target_path w = Some (w', r)"
proof -
  from download_directory_contents_terminates [OF assms] obtain x where
    x: "download_directory_contents d env owner repo p target_path w = Some x"
    by blast
  obtain w' r where "x = (w', r)" by (cases x)
  with x download_directory_contents_mono show ?thesis by blast
qed

theorem download_terminates_on_finite_tree_witness:
  "tree_depth_le 2 (example_env site1 []) (self world0) ''o'' ''r'' [] \<and>
   \<not> tree_depth_le 1 (example_env site1 []) (self world0) ''o'' ''r'' [] \<and>
   (\<exists>w' r. download_directory_contents 2 (example_env site1 []) ''o'' ''r'' [] ''r'' world0 =
              Some (w', r) \<and>
            download_directory_contents 7 (example_env site1 []) ''o'' ''r'' [] ''r'' world0 =
              Some (w', r))"
proof -
  have 1: "tree_depth_le 2 (example_env site1 []) (self world0) ''o'' ''r'' []" by code_simp
  have 2: "\<not> tree_depth_le 1 (example_env site1 []) (self world0) ''o'' ''r'' []" by code_simp
  from download_terminates_on_finite_tree [OF 1, where target_path="''r''"] obtain w' r where
    a: "\<forall>fuel\<ge>2.
          download_directory_contents fuel (example_env site1 []) ''o'' ''r'' [] ''r'' world0 =
          Some (w', r)"
    by blast
  from a have "download_directory_contents 2 (example_env site1 []) ''o'' ''r'' [] ''r'' world0 =
          Some (w', r)" by simp
  moreover from a have
    "download_directory_contents 7 (example_env site1 []) ''o'' ''r'' [] ''r'' world0 =
          Some (w', r)" by simp
  ultimately show ?thesis using 1 2 by blast
qed

text \<open>
  The claim C10 as stated fails: on a finite remote tree the call terminates, but not
  always by returning a result. A listing entry of type file without the key
  \<^verbatim>\<open>size\<close> ends it with a \<^verbatim>\<open>KeyError\<close> (after the file is written), and a listing
  request that raises ends it with that exception.
\<close>

theorem download_may_raise_on_finite_tree:
  "tree_depth_le 1 (example_env site_nosize []) (self world0) ''o'' ''r'' [] \<and>
   download_directory_contents 1 (example_env site_nosize []) ''o'' ''r'' [] ''r'' world0 =
     Some (world0
             \<lparr>filesystem := [(''r/x'', Some ''hi'')],
              trace := [Get (JStr ''https://api.github.com/repos/o/r/contents/'')
                          (headers (self world0)),
                        WriteBytes ''r/x'' ''hi'' None]\<rparr>,
           Inl (KeyError ''size'')) \<and>
   tree_depth_le 1 (example_env [] []) (self world0) ''o'' ''r'' [] \<and>
   download_directory_contents 1 (example_env [] []) ''o'' ''r'' [] ''r'' world0 =
     Some (world0
             \<lparr>trace := [Get (JStr ''https://api.github.com/repos/o/r/contents/'')
                          (headers (self world0))]\<rparr>,
           Inl (Raised ''ConnectionError''))"
  by code_simp

end
